theory Spec2Isabelle
  imports Main
begin

unbundle bit_operations_syntax

section \<open>Data model of connection.c\<close>

text \<open>The state tag of \<^verbatim>\<open>struct Connection\<close>.\<close>

datatype State =
  NEW | ACCEPTED | PARSED | RESOLVED | CONNECTED | SERVER_CLOSED | CLIENT_CLOSED | CLOSED

text \<open>
  \<^verbatim>\<open>assert\<close> aborts the process when its condition is false; the number is the line of
  the failed assertion in connection.c. \<open>InvalidPointer\<close> is the use of a pointer that
  is NULL or points to a Connection that is not allocated.
\<close>

datatype error = AssertFailed nat | InvalidPointer

definition bind_err :: "error + 'a \<Rightarrow> ('a \<Rightarrow> error + 'b) \<Rightarrow> error + 'b" where
  "bind_err r f = (case r of Inl e \<Rightarrow> Inl e | Inr x \<Rightarrow> f x)"

subsection \<open>The libev watcher\<close>

text \<open>
  \<^verbatim>\<open>struct ev_io\<close> of libev (an external library), as far as connection.c reads and
  writes it: the \<open>active\<close> flag behind \<^verbatim>\<open>ev_is_active\<close>, the descriptor and the
  registered event mask. \<^verbatim>\<open>ev_io_init\<close> leaves the watcher inactive, \<^verbatim>\<open>ev_io_set\<close>
  stores descriptor and mask, \<^verbatim>\<open>ev_io_start\<close> and \<^verbatim>\<open>ev_io_stop\<close> set and clear the flag.
\<close>

record ev_io =
  active :: bool
  fd :: int
  events :: int

abbreviation (input) EV_READ :: int where "EV_READ \<equiv> 1"
abbreviation (input) EV_WRITE :: int where "EV_WRITE \<equiv> 2"

definition ev_io_init :: "int \<Rightarrow> int \<Rightarrow> ev_io" where
  "ev_io_init sockfd ev = \<lparr>active = False, fd = sockfd, events = ev\<rparr>"

definition ev_io_set :: "ev_io \<Rightarrow> int \<Rightarrow> int \<Rightarrow> ev_io" where
  "ev_io_set w sockfd ev = w\<lparr>fd := sockfd, events := ev\<rparr>"

definition ev_io_start :: "ev_io \<Rightarrow> ev_io" where
  "ev_io_start w = w\<lparr>active := True\<rparr>"

definition ev_io_stop :: "ev_io \<Rightarrow> ev_io" where
  "ev_io_stop w = w\<lparr>active := False\<rparr>"

definition ev_is_active :: "ev_io \<Rightarrow> bool" where
  "ev_is_active w = active w"

subsection \<open>errno\<close>

text \<open>The errno values of Linux that connection.c tests.\<close>

abbreviation (input) EINTR :: int where "EINTR \<equiv> 4"
abbreviation (input) EAGAIN :: int where "EAGAIN \<equiv> 11"
abbreviation (input) EWOULDBLOCK :: int where "EWOULDBLOCK \<equiv> 11"
abbreviation (input) EINPROGRESS :: int where "EINPROGRESS \<equiv> 115"

definition IS_TEMPORARY_SOCKERR :: "int \<Rightarrow> bool" where
  "IS_TEMPORARY_SOCKERR errno \<longleftrightarrow> errno = EAGAIN \<or> errno = EWOULDBLOCK \<or> errno = EINTR"

subsection \<open>Buffer\<close>

text \<open>
  buffer.c is not among the sources. The ring buffer is kept as its capacity and the
  pending bytes, oldest first.
\<close>

record Buffer =
  capacity :: nat
  pending :: "char list"

text \<open>Modelled from the spec: \<^verbatim>\<open>len\<close> is the number of pending bytes (buffer.c is missing).\<close>

definition buffer_len :: "Buffer \<Rightarrow> nat" where
  "buffer_len b = length (pending b)"

text \<open>Modelled from the spec: \<^verbatim>\<open>room\<close> is the number of free bytes (buffer.c is missing).\<close>

definition buffer_room :: "Buffer \<Rightarrow> nat" where
  "buffer_room b = capacity b - length (pending b)"

text \<open>
  Modelled from the spec: \<^verbatim>\<open>peek(dst, n)\<close> copies up to \<open>min n len\<close> bytes and leaves
  the buffer unchanged (buffer.c is missing).
\<close>

definition buffer_peek :: "Buffer \<Rightarrow> nat \<Rightarrow> char list" where
  "buffer_peek b n = take n (pending b)"

text \<open>
  Modelled from the spec: \<^verbatim>\<open>recv(fd)\<close> issues a single non-blocking read sized to the
  current room and returns the bytes read, 0 on peer EOF, or a negative value on error
  (buffer.c is missing). The outcome of the system call is an input: \<open>Inl errno\<close> when
  it fails, \<open>Inr bs\<close> when the peer's stream holds \<open>bs\<close> (\<open>[]\<close> at end of stream).
  The result is the return value, errno and the new buffer.
\<close>

definition buffer_recv :: "Buffer \<Rightarrow> int + char list \<Rightarrow> int \<times> int \<times> Buffer" where
  "buffer_recv b outcome =
     (case outcome of
        Inl errno \<Rightarrow> (- 1, errno, b)
      | Inr bs \<Rightarrow>
          (let got = take (buffer_room b) bs
           in (int (length got), 0, b\<lparr>pending := pending b @ got\<rparr>)))"

text \<open>
  Modelled from the spec: \<^verbatim>\<open>send(fd)\<close> issues a single non-blocking write of the pending
  prefix and returns the bytes written or a negative value (buffer.c is missing).
  \<open>Inr n\<close> means the kernel takes up to \<open>n\<close> bytes.
\<close>

definition buffer_send :: "Buffer \<Rightarrow> int + nat \<Rightarrow> int \<times> int \<times> Buffer" where
  "buffer_send b outcome =
     (case outcome of
        Inl errno \<Rightarrow> (- 1, errno, b)
      | Inr n \<Rightarrow>
          (let k = min n (length (pending b))
           in (int k, 0, b\<lparr>pending := drop k (pending b)\<rparr>)))"

subsection \<open>Addresses and the listener\<close>

text \<open>
  address.h and listener.h are not among the sources. An Address is either a hostname or
  a socket address; a socket address is its family, its length and its bytes.
\<close>

record sockaddr_storage =
  ss_family :: int
  sa_len :: nat
  sa_data :: "char list"

datatype Address = HOSTNAME string | SOCKADDR sockaddr_storage

fun address_is_hostname :: "Address \<Rightarrow> bool" where
  "address_is_hostname (HOSTNAME h) = True"
| "address_is_hostname (SOCKADDR sa) = False"

fun address_is_sockaddr :: "Address \<Rightarrow> bool" where
  "address_is_sockaddr (HOSTNAME h) = False"
| "address_is_sockaddr (SOCKADDR sa) = True"

text \<open>
  The part of \<^verbatim>\<open>struct Listener\<close> that connection.c uses. \<open>parse_packet\<close> maps the
  peeked bytes to its return value and to the hostname it stored through the
  out-parameter (\<open>None\<close> when it left the pointer alone, which starts as NULL).
\<close>

record Listener =
  parse_packet :: "char list \<Rightarrow> int \<times> string option"
  fallback_address :: "Address option"

subsection \<open>The connection\<close>

text \<open>
  System calls that act on a descriptor, recorded in the order they are issued.
\<close>

datatype syscall =
  Sys_recv int | Sys_send int | Sys_close int | Sys_socket int | Sys_connect int | Sys_accept int

text \<open>
  One half (\<^verbatim>\<open>client\<close> or \<^verbatim>\<open>server\<close>) of \<^verbatim>\<open>struct Connection\<close>. \<open>sock_open\<close> is a
  ghost field: the half holds an open descriptor in \<open>fd (watcher h)\<close>. It is set when
  \<^verbatim>\<open>accept\<close> or \<^verbatim>\<open>socket\<close> hands the descriptor to the half and cleared by
  \<^verbatim>\<open>close\<close>; the C code has no such field.
\<close>

record Peer =
  addr :: sockaddr_storage
  addr_len :: nat
  watcher :: ev_io
  buffer :: Buffer
  sock_open :: bool

text \<open>
  \<^verbatim>\<open>struct Connection\<close>. The listener is a pointer to a constant Listener, \<open>None\<close>
  when NULL. \<open>syscalls\<close> is a ghost field: the system calls issued on this connection's
  descriptors, oldest first.
\<close>

record Connection =
  state :: State
  client :: Peer
  server :: Peer
  hostname :: "string option"
  listener :: "Listener option"
  syscalls :: "syscall list"

text \<open>
  What the environment answers during one callback: the outcome of \<^verbatim>\<open>recv\<close> and
  \<^verbatim>\<open>send\<close>, the descriptor returned by \<^verbatim>\<open>socket\<close>, the return value and errno of
  \<^verbatim>\<open>connect\<close>, and \<^verbatim>\<open>listener_lookup_server_address\<close> (listener.c is not among the
  sources, so the function is a parameter).
\<close>

record Env =
  recv_outcome :: "int + char list"
  send_outcome :: "int + nat"
  socket_result :: int
  connect_result :: "int \<times> int"
  listener_lookup_server_address :: "Listener \<Rightarrow> string option \<Rightarrow> Address"

section \<open>The operations of connection.c\<close>

definition client_socket_open :: "Connection \<Rightarrow> bool" where
  "client_socket_open con \<longleftrightarrow>
     state con = ACCEPTED \<or> state con = PARSED \<or> state con = RESOLVED \<or>
     state con = CONNECTED \<or> state con = SERVER_CLOSED"

definition server_socket_open :: "Connection \<Rightarrow> bool" where
  "server_socket_open con \<longleftrightarrow> state con = CONNECTED \<or> state con = CLIENT_CLOSED"

definition close_client_socket :: "Connection \<Rightarrow> error + Connection" where
  "close_client_socket con =
     (if \<not> (state con \<noteq> CLOSED \<and> state con \<noteq> CLIENT_CLOSED) then Inl (AssertFailed 393)
      else Inr (con\<lparr>
        client := (client con)\<lparr>watcher := ev_io_stop (watcher (client con)),
                               sock_open := False\<rparr>,
        syscalls := syscalls con @ [Sys_close (fd (watcher (client con)))],
        state := (if state con = SERVER_CLOSED \<or> state con = ACCEPTED \<or>
                     state con = PARSED \<or> state con = RESOLVED
                  then CLOSED else CLIENT_CLOSED)\<rparr>))"

definition close_server_socket :: "Connection \<Rightarrow> error + Connection" where
  "close_server_socket con =
     (if \<not> (state con \<noteq> CLOSED \<and> state con \<noteq> SERVER_CLOSED) then Inl (AssertFailed 416)
      else Inr (con\<lparr>
        server := (server con)\<lparr>watcher := ev_io_stop (watcher (server con)),
                               sock_open := False\<rparr>,
        syscalls := syscalls con @ [Sys_close (fd (watcher (server con)))],
        state := (if state con = CLIENT_CLOSED then CLOSED else SERVER_CLOSED)\<rparr>))"

definition reactivate_watcher :: "ev_io \<Rightarrow> Buffer \<Rightarrow> Buffer \<Rightarrow> ev_io" where
  "reactivate_watcher w input_buffer output_buffer =
     (let events0 = (0 :: int);
          events1 = (if buffer_room input_buffer \<noteq> 0 then events0 OR EV_READ else events0);
          events2 = (if buffer_len output_buffer \<noteq> 0 then events1 OR EV_WRITE else events1)
      in if ev_is_active w then
           (if events2 = 0 then ev_io_stop w
            else if events2 \<noteq> events w then
              ev_io_start (ev_io_set (ev_io_stop w) (fd w) events2)
            else w)
         else if events2 \<noteq> 0 then ev_io_start (ev_io_set w (fd w) events2)
         else w)"

definition parse_client_request :: "Connection \<Rightarrow> error + Connection" where
  "parse_client_request con =
     (case listener con of
        None \<Rightarrow> Inl InvalidPointer
      | Some l \<Rightarrow>
          (let buf = buffer_peek (buffer (client con)) 1460;
               (result, hostname0) = parse_packet l buf;
               parsed = Inr (con\<lparr>hostname := hostname0, state := PARSED\<rparr>)
           in if result = - 1 then Inr con
              else if result = - 2 then
                (if fallback_address l = None then close_client_socket con else parsed)
              else if result < - 2 then
                (if fallback_address l = None then close_client_socket con else parsed)
              else parsed))"

definition resolve_server_address :: "Env \<Rightarrow> Connection \<Rightarrow> error + Connection" where
  "resolve_server_address env con =
     (case listener con of
        None \<Rightarrow> Inl InvalidPointer
      | Some l \<Rightarrow>
          (let server_address = listener_lookup_server_address env l (hostname con)
           in if address_is_hostname server_address then close_client_socket con
              else if \<not> address_is_sockaddr server_address then Inl (AssertFailed 345)
              else case server_address of
                  HOSTNAME h \<Rightarrow> Inl (AssertFailed 345)
                | SOCKADDR sa \<Rightarrow>
                    (if \<not> sa_len sa \<le> 128 then Inl (AssertFailed 347)
                     else Inr (con\<lparr>server := (server con)\<lparr>addr_len := sa_len sa, addr := sa\<rparr>,
                                   state := RESOLVED\<rparr>))))"

definition initiate_server_connect :: "Env \<Rightarrow> Connection \<Rightarrow> error + Connection" where
  "initiate_server_connect env con =
     (let sockfd = socket_result env
      in if sockfd < 0 then Inr con
         else
           (let (result, errno) = connect_result env;
                con1 = con\<lparr>syscalls := syscalls con @ [Sys_socket sockfd, Sys_connect sockfd]\<rparr>
            in if result < 0 \<and> errno \<noteq> EINPROGRESS then
                 Inr (con1\<lparr>syscalls := syscalls con1 @ [Sys_close sockfd],
                           state := SERVER_CLOSED\<rparr>)
               else
                 Inr (con1\<lparr>server := (server con1)\<lparr>
                              watcher := ev_io_start (ev_io_init sockfd EV_WRITE),
                              sock_open := True\<rparr>,
                           state := CONNECTED\<rparr>)))"

definition close_connection :: "Connection \<Rightarrow> error + Connection" where
  "close_connection con =
     (if \<not> state con \<noteq> NEW then Inl (AssertFailed 433)
      else bind_err
        (if state con = CONNECTED \<or> state con = CLIENT_CLOSED
         then close_server_socket con else Inr con)
        (\<lambda>con1.
           if \<not> (state con1 = ACCEPTED \<or> state con1 = PARSED \<or> state con1 = RESOLVED \<or>
                 state con1 = SERVER_CLOSED \<or> state con1 = CLOSED)
           then Inl (AssertFailed 439)
           else bind_err
             (if state con1 = ACCEPTED \<or> state con1 = PARSED \<or> state con1 = RESOLVED \<or>
                 state con1 = SERVER_CLOSED
              then close_client_socket con1 else Inr con1)
             (\<lambda>con2. if \<not> state con2 = CLOSED then Inl (AssertFailed 451) else Inr con2)))"

subsection \<open>The registry and the callback\<close>

text \<open>
  The process-wide state: the tail queue \<^verbatim>\<open>connections\<close> (head first) of pointers,
  the allocated Connections by address, and as a ghost field the Connections that
  \<^verbatim>\<open>free_connection\<close> has released, most recent first, each as it was when released.
  A Connection that \<^verbatim>\<open>new_connection\<close> gives up while building it is not recorded there.
\<close>

record World =
  connections :: "nat list"
  heap :: "nat \<rightharpoonup> Connection"
  freed :: "Connection list"

definition init_connections :: World where
  "init_connections = \<lparr>connections = [], heap = Map.empty, freed = []\<rparr>"

definition TAILQ_INSERT_HEAD :: "nat \<Rightarrow> World \<Rightarrow> World" where
  "TAILQ_INSERT_HEAD c w = w\<lparr>connections := c # connections w\<rparr>"

definition TAILQ_REMOVE :: "nat \<Rightarrow> World \<Rightarrow> World" where
  "TAILQ_REMOVE c w = w\<lparr>connections := remove1 c (connections w)\<rparr>"

text \<open>\<^verbatim>\<open>free_connection\<close> on the Connection at address \<open>c\<close>, whose value is \<open>con\<close>.\<close>

definition free_connection :: "nat \<Rightarrow> Connection \<Rightarrow> World \<Rightarrow> World" where
  "free_connection c con w = w\<lparr>heap := (heap w)(c := None), freed := con # freed w\<rparr>"

text \<open>
  The parts of \<^verbatim>\<open>connection_cb\<close>. \<open>is_client\<close> says which of the two watchers fired.
  Lines 198 to 211: receive first; the result carries the new value of \<^verbatim>\<open>revents\<close>.
\<close>

definition close_socket :: "bool \<Rightarrow> Connection \<Rightarrow> error + Connection" where
  "close_socket is_client con =
     (if is_client then close_client_socket con else close_server_socket con)"

definition cb_receive ::
  "Env \<Rightarrow> bool \<Rightarrow> int \<Rightarrow> Connection \<Rightarrow> error + (Connection \<times> int)" where
  "cb_receive env is_client revents con =
     (let input_buffer = (if is_client then buffer (client con) else buffer (server con));
          w = (if is_client then watcher (client con) else watcher (server con))
      in if revents AND EV_READ \<noteq> 0 \<and> buffer_room input_buffer \<noteq> 0 then
           (let (bytes_received, errno, input_buffer1) =
                  buffer_recv input_buffer (recv_outcome env);
                con0 = (if is_client then con\<lparr>client := (client con)\<lparr>buffer := input_buffer1\<rparr>\<rparr>
                        else con\<lparr>server := (server con)\<lparr>buffer := input_buffer1\<rparr>\<rparr>);
                con1 = con0\<lparr>syscalls := syscalls con0 @ [Sys_recv (fd w)]\<rparr>
            in if bytes_received < 0 \<and> \<not> IS_TEMPORARY_SOCKERR errno then
                 bind_err (close_socket is_client con1) (\<lambda>con2. Inr (con2, 0))
               else if bytes_received = 0 then
                 bind_err (close_socket is_client con1) (\<lambda>con2. Inr (con2, 0))
               else Inr (con1, revents))
         else Inr (con, revents))"

text \<open>Lines 213 to 222: transmit.\<close>

definition cb_transmit :: "Env \<Rightarrow> bool \<Rightarrow> int \<Rightarrow> Connection \<Rightarrow> error + Connection" where
  "cb_transmit env is_client revents con =
     (let output_buffer = (if is_client then buffer (server con) else buffer (client con));
          w = (if is_client then watcher (client con) else watcher (server con))
      in if revents AND EV_WRITE \<noteq> 0 \<and> buffer_len output_buffer \<noteq> 0 then
           (let (bytes_transmitted, errno, output_buffer1) =
                  buffer_send output_buffer (send_outcome env);
                con0 = (if is_client then con\<lparr>server := (server con)\<lparr>buffer := output_buffer1\<rparr>\<rparr>
                        else con\<lparr>client := (client con)\<lparr>buffer := output_buffer1\<rparr>\<rparr>);
                con1 = con0\<lparr>syscalls := syscalls con0 @ [Sys_send (fd w)]\<rparr>
            in if bytes_transmitted < 0 \<and> \<not> IS_TEMPORARY_SOCKERR errno then
                 close_socket is_client con1
               else Inr con1)
         else Inr con)"

text \<open>Lines 224 to 236: the state specific logic, then closing the other socket once
  the corresponding buffer is flushed.\<close>

definition cb_state :: "Env \<Rightarrow> bool \<Rightarrow> Connection \<Rightarrow> error + Connection" where
  "cb_state env is_client con =
     bind_err (if is_client \<and> state con = ACCEPTED then parse_client_request con
               else Inr con) (\<lambda>con.
     bind_err (if is_client \<and> state con = PARSED then resolve_server_address env con
               else Inr con) (\<lambda>con.
     bind_err (if is_client \<and> state con = RESOLVED then initiate_server_connect env con
               else Inr con) (\<lambda>con.
     bind_err (if state con = SERVER_CLOSED \<and> buffer_len (buffer (server con)) = 0
               then close_client_socket con else Inr con) (\<lambda>con.
     if state con = CLIENT_CLOSED \<and> buffer_len (buffer (client con)) = 0
     then close_server_socket con else Inr con))))"

text \<open>Lines 245 to 255: reactivate the watchers of the open halves.\<close>

definition cb_reactivate :: "Connection \<Rightarrow> Connection" where
  "cb_reactivate con =
     (let con1 = (if client_socket_open con
                  then con\<lparr>client := (client con)\<lparr>watcher :=
                         reactivate_watcher (watcher (client con))
                           (buffer (client con)) (buffer (server con))\<rparr>\<rparr>
                  else con)
      in if server_socket_open con1
         then con1\<lparr>server := (server con1)\<lparr>watcher :=
                reactivate_watcher (watcher (server con1))
                  (buffer (server con1)) (buffer (client con1))\<rparr>\<rparr>
         else con1)"

text \<open>Lines 257 to 263: the three assertions.\<close>

definition cb_asserts :: "Connection \<Rightarrow> error + Connection" where
  "cb_asserts con =
     (let client_watcher = watcher (client con);
          server_watcher = watcher (server con)
      in if \<not> (client_socket_open con \<or> \<not> ev_is_active client_watcher)
           then Inl (AssertFailed 258)
         else if \<not> (server_socket_open con \<or> \<not> ev_is_active server_watcher)
           then Inl (AssertFailed 259)
         else if \<not> ((ev_is_active client_watcher \<and> events client_watcher \<noteq> 0) \<or>
                    (ev_is_active server_watcher \<and> events server_watcher \<noteq> 0))
           then Inl (AssertFailed 262)
         else Inr con)"

text \<open>Lines 189 to 236 on the Connection: receive, transmit, state logic.\<close>

definition cb_steps :: "Env \<Rightarrow> bool \<Rightarrow> int \<Rightarrow> Connection \<Rightarrow> error + Connection" where
  "cb_steps env is_client revents con =
     bind_err (cb_receive env is_client revents con) (\<lambda>(con1, revents1).
     bind_err (cb_transmit env is_client revents1 con1) (\<lambda>con2.
     cb_state env is_client con2))"

text \<open>
  \<^verbatim>\<open>connection_cb\<close> for the Connection at address \<open>c\<close> (the watcher's \<^verbatim>\<open>data\<close>
  pointer).
\<close>

definition connection_cb :: "Env \<Rightarrow> nat \<Rightarrow> bool \<Rightarrow> int \<Rightarrow> World \<Rightarrow> error + World" where
  "connection_cb env c is_client revents w =
     (case heap w c of
        None \<Rightarrow> Inl InvalidPointer
      | Some con \<Rightarrow>
          bind_err (cb_steps env is_client revents con) (\<lambda>con3.
            if state con3 = CLOSED then Inr (free_connection c con3 (TAILQ_REMOVE c w))
            else bind_err (cb_asserts (cb_reactivate con3)) (\<lambda>con4.
              Inr (TAILQ_INSERT_HEAD c (TAILQ_REMOVE c (w\<lparr>heap := (heap w)(c \<mapsto> con4)\<rparr>))))))"

subsection \<open>Accepting and shutting down\<close>

text \<open>
  What the environment answers during \<^verbatim>\<open>accept_connection\<close>: the address returned by
  \<^verbatim>\<open>calloc\<close> (\<open>None\<close> when it fails), the results of the two calls of \<^verbatim>\<open>new_buffer\<close>
  (buffer.c is not among the sources; \<open>None\<close> when it fails), the descriptor returned by
  \<^verbatim>\<open>accept\<close> and the peer address it stores together with its length.
\<close>

record AcceptEnv =
  calloc_result :: "nat option"
  new_buffer_client :: "Buffer option"
  new_buffer_server :: "Buffer option"
  accept_result :: int
  accept_addr :: sockaddr_storage

definition zero_sockaddr :: sockaddr_storage where
  "zero_sockaddr = \<lparr>ss_family = 0, sa_len = 0, sa_data = []\<rparr>"

definition zero_watcher :: ev_io where
  "zero_watcher = \<lparr>active = False, fd = 0, events = 0\<rparr>"

text \<open>
  \<^verbatim>\<open>new_connection\<close>: the address and the value of the new Connection, or \<open>None\<close>.
  \<^verbatim>\<open>calloc\<close> zeroes the memory; 128 is \<^verbatim>\<open>sizeof(struct sockaddr_storage)\<close>.
\<close>

definition new_connection :: "AcceptEnv \<Rightarrow> (nat \<times> Connection) option" where
  "new_connection aenv =
     (case calloc_result aenv of
        None \<Rightarrow> None
      | Some c \<Rightarrow>
          (case new_buffer_client aenv of
             None \<Rightarrow> None
           | Some cb \<Rightarrow>
               (case new_buffer_server aenv of
                  None \<Rightarrow> None
                | Some sb \<Rightarrow>
                    Some (c, \<lparr>state = NEW,
                      client = \<lparr>addr = zero_sockaddr, addr_len = 128, watcher = zero_watcher,
                                buffer = cb, sock_open = False\<rparr>,
                      server = \<lparr>addr = zero_sockaddr, addr_len = 128, watcher = zero_watcher,
                                buffer = sb, sock_open = False\<rparr>,
                      hostname = None, listener = None, syscalls = []\<rparr>))))"

definition accept_connection :: "Listener \<Rightarrow> AcceptEnv \<Rightarrow> World \<Rightarrow> World" where
  "accept_connection l aenv w =
     (case new_connection aenv of
        None \<Rightarrow> w
      | Some (c, con) \<Rightarrow>
          (let sockfd = accept_result aenv
           in if sockfd < 0 then free_connection c con (w\<lparr>heap := (heap w)(c \<mapsto> con)\<rparr>)
              else
                (let client_watcher = ev_io_init sockfd EV_READ;
                     con1 = con\<lparr>client := (client con)\<lparr>addr := accept_addr aenv,
                                  addr_len := sa_len (accept_addr aenv),
                                  watcher := client_watcher, sock_open := True\<rparr>,
                                syscalls := syscalls con @ [Sys_accept sockfd],
                                state := ACCEPTED, listener := Some l\<rparr>;
                     w1 = TAILQ_INSERT_HEAD c (w\<lparr>heap := (heap w)(c \<mapsto> con1)\<rparr>)
                 in w1\<lparr>heap := (heap w1)(c \<mapsto>
                      con1\<lparr>client := (client con1)\<lparr>watcher := ev_io_start client_watcher\<rparr>\<rparr>)\<rparr>)))"

text \<open>
  \<^verbatim>\<open>free_connections\<close>: while the queue has a first element, remove it from the queue,
  close it and free it.
\<close>

function free_connections :: "World \<Rightarrow> error + World" where
  "free_connections w =
     (case connections w of
        [] \<Rightarrow> Inr w
      | iter # rest \<Rightarrow>
          (let w1 = TAILQ_REMOVE iter w
           in case heap w1 iter of
                None \<Rightarrow> Inl InvalidPointer
              | Some con \<Rightarrow>
                  (case close_connection con of
                     Inl e \<Rightarrow> Inl e
                   | Inr con1 \<Rightarrow> free_connections (free_connection iter con1 w1))))"
  by pat_completeness auto
termination
  by (relation "measure (\<lambda>w. length (connections w))")
     (auto simp: TAILQ_REMOVE_def free_connection_def)

declare free_connections.simps [simp del]

subsection \<open>Reachable states of the process\<close>

text \<open>
  The states of the process between two callbacks of the reactor. \<^verbatim>\<open>calloc\<close> returns
  an address that is not allocated, and libev calls back only for a watcher that is active.
\<close>

inductive reachable :: "World \<Rightarrow> bool" where
  reach_init: "reachable init_connections"
| reach_accept:
    "reachable w \<Longrightarrow> (\<forall>c. calloc_result aenv = Some c \<longrightarrow> heap w c = None) \<Longrightarrow>
     reachable (accept_connection l aenv w)"
| reach_cb:
    "reachable w \<Longrightarrow> heap w c = Some con \<Longrightarrow>
     ev_is_active (if is_client then watcher (client con) else watcher (server con)) \<Longrightarrow>
     connection_cb env c is_client revents w = Inr w' \<Longrightarrow> reachable w'"
| reach_free:
    "reachable w \<Longrightarrow> free_connections w = Inr w' \<Longrightarrow> reachable w'"

text \<open>
  The invariant of one Connection in the registry: each half holds an open descriptor
  exactly when the state says so, the watcher of a closed half is inactive, and the
  Connection has left NEW.
\<close>

definition conn_inv :: "Connection \<Rightarrow> bool" where
  "conn_inv con \<longleftrightarrow>
     (sock_open (client con) \<longleftrightarrow> client_socket_open con) \<and>
     (sock_open (server con) \<longleftrightarrow> server_socket_open con) \<and>
     (ev_is_active (watcher (client con)) \<longrightarrow> client_socket_open con) \<and>
     (ev_is_active (watcher (server con)) \<longrightarrow> server_socket_open con) \<and>
     state con \<noteq> NEW"

definition world_inv :: "World \<Rightarrow> bool" where
  "world_inv w \<longleftrightarrow>
     distinct (connections w) \<and> set (connections w) = dom (heap w) \<and>
     (\<forall>c con. heap w c = Some con \<longrightarrow> conn_inv con \<and> state con \<noteq> CLOSED)"

text \<open>
  What \<^verbatim>\<open>close_connection\<close> makes of \<open>con\<close>: it returns \<open>con'\<close> in state CLOSED with
  both descriptors released, after closing the server's descriptor if the server socket
  was open and then the client's if the client socket was open, and nothing else.
\<close>

definition force_closed :: "Connection \<Rightarrow> Connection \<Rightarrow> bool" where
  "force_closed con con' \<longleftrightarrow>
     close_connection con = Inr con' \<and> state con' = CLOSED \<and>
     \<not> sock_open (client con') \<and> \<not> sock_open (server con') \<and>
     syscalls con' = syscalls con @
       (if server_socket_open con then [Sys_close (fd (watcher (server con)))] else []) @
       (if client_socket_open con then [Sys_close (fd (watcher (client con)))] else [])"

text \<open>
  Following the spec's words: readable interest is desired iff the inbound buffer has
  room, writable interest iff the outbound buffer has pending bytes.
\<close>

definition desired_events :: "Buffer \<Rightarrow> Buffer \<Rightarrow> int" where
  "desired_events input_buffer output_buffer =
     (if buffer_room input_buffer \<noteq> 0 then EV_READ else 0) OR
     (if buffer_len output_buffer \<noteq> 0 then EV_WRITE else 0)"

text \<open>The events the reactor polls for on behalf of a watcher: none when it is stopped.\<close>

definition interest :: "ev_io \<Rightarrow> int" where
  "interest w = (if ev_is_active w then events w else 0)"

text \<open>The watcher whose callback runs, and the half it belongs to.\<close>

definition fired :: "bool \<Rightarrow> Connection \<Rightarrow> Peer" where
  "fired is_client con = (if is_client then client con else server con)"

text \<open>Whether a system call is a \<^verbatim>\<open>send\<close>.\<close>

definition is_send :: "syscall \<Rightarrow> bool" where
  "is_send x = (case x of Sys_send d \<Rightarrow> True | _ \<Rightarrow> False)"

text \<open>No \<^verbatim>\<open>send\<close> is issued after a \<^verbatim>\<open>close\<close> in a sequence of system calls.\<close>

fun no_send_after_close :: "syscall list \<Rightarrow> bool" where
  "no_send_after_close [] = True"
| "no_send_after_close (Sys_close d # xs) =
     ((\<forall>x \<in> set xs. \<not> is_send x) \<and> no_send_after_close xs)"
| "no_send_after_close (x # xs) = no_send_after_close xs"

text \<open>\<open>con'\<close> has issued the system calls of \<open>con\<close> and then some that are no \<^verbatim>\<open>send\<close>.\<close>

definition extends_nosend :: "Connection \<Rightarrow> Connection \<Rightarrow> bool" where
  "extends_nosend con con' \<longleftrightarrow>
     (\<exists>n. syscalls con' = syscalls con @ n \<and> (\<forall>x \<in> set n. \<not> is_send x))"

section \<open>Configuration: the listener stanza\<close>

text \<open>
  The file's own \<^verbatim>\<open>struct ListenerConfig\<close>: four strings, NULL until set. A string holds
  the bytes before the terminating NUL.
\<close>

record ListenerConfig =
  address :: "string option"
  port :: "string option"
  table_name :: "string option"
  protocol :: "string option"

text \<open>
  config.h is not among the sources. The protocol of a listener is TLS or HTTP;
  \<^verbatim>\<open>struct Listener\<close> as this file fills it, and \<^verbatim>\<open>struct Config\<close> as far as
  \<^verbatim>\<open>end_listener\<close> touches it: the list of listeners, head first.
\<close>

datatype Protocol = TLS | HTTP

record ListenerEntry =
  listener_table_name :: "string option"
  listener_protocol :: Protocol
  listener_addr :: sockaddr_storage
  listener_addr_len :: int

record Config =
  filename :: "string option"
  user :: "string option"
  listeners :: "ListenerEntry list"

text \<open>\<^verbatim>\<open>tolower\<close> and \<^verbatim>\<open>strcasecmp\<close> of the C library, in the C locale.\<close>

definition tolower :: "char \<Rightarrow> char" where
  "tolower c = (let n = (of_char c :: nat) in if 65 \<le> n \<and> n \<le> 90 then char_of (n + 32) else c)"

fun strcasecmp :: "string \<Rightarrow> string \<Rightarrow> int" where
  "strcasecmp [] [] = 0"
| "strcasecmp [] (b # bs) = - int (of_char (tolower b))"
| "strcasecmp (a # as) [] = int (of_char (tolower a))"
| "strcasecmp (a # as) (b # bs) =
     (if tolower a = tolower b then strcasecmp as bs
      else int (of_char (tolower a)) - int (of_char (tolower b)))"

text \<open>\<^verbatim>\<open>begin_listener\<close>, given whether \<^verbatim>\<open>calloc\<close> succeeds.\<close>

definition begin_listener :: "bool \<Rightarrow> ListenerConfig option" where
  "begin_listener calloc_ok =
     (if \<not> calloc_ok then None
      else Some \<lparr>address = None, port = None, table_name = None, protocol = None\<rparr>)"

text \<open>\<^verbatim>\<open>accept_listener_arg\<close>; \<^verbatim>\<open>isnumeric\<close> (util.h) is a parameter.\<close>

definition accept_listener_arg ::
  "(string \<Rightarrow> bool) \<Rightarrow> ListenerConfig \<Rightarrow> string \<Rightarrow> int \<times> ListenerConfig" where
  "accept_listener_arg isnumeric lc arg =
     (if address lc = None then
        (if isnumeric arg then (1, lc\<lparr>port := Some arg\<rparr>)
         else (1, lc\<lparr>address := Some arg\<rparr>))
      else if port lc = None \<and> isnumeric arg then (1, lc\<lparr>port := Some arg\<rparr>)
      else (- 1, lc))"

definition accept_listener_table_name :: "ListenerConfig \<Rightarrow> string \<Rightarrow> int \<times> ListenerConfig" where
  "accept_listener_table_name lc tn =
     (if table_name lc = None then (1, lc\<lparr>table_name := Some tn\<rparr>) else (1, lc))"

definition accept_listener_protocol :: "ListenerConfig \<Rightarrow> string \<Rightarrow> int \<times> ListenerConfig" where
  "accept_listener_protocol lc p =
     (if protocol lc = None then (1, lc\<lparr>protocol := Some p\<rparr>) else (1, lc))"

text \<open>
  \<^verbatim>\<open>end_listener\<close>; \<^verbatim>\<open>atoi\<close> and \<^verbatim>\<open>parse_address\<close> (util.h), which gives the address and
  its length, are parameters. The result is the return value and the new Config.
\<close>

definition end_listener ::
  "(string \<Rightarrow> int) \<Rightarrow> (string option \<Rightarrow> int \<Rightarrow> sockaddr_storage \<times> int) \<Rightarrow>
   Config \<Rightarrow> ListenerConfig \<Rightarrow> int \<times> Config" where
  "end_listener atoi parse_address config lc =
     (let port0 = (0 :: int);
          protocol0 = TLS;
          protocol1 = (if (case protocol lc of None \<Rightarrow> False
                           | Some p \<Rightarrow> strcasecmp p ''http'' = 0)
                       then HTTP else protocol0);
          port1 = (case port lc of Some p \<Rightarrow> atoi p | None \<Rightarrow> port0);
          (a, a_len) = parse_address (address lc) port1;
          l = \<lparr>listener_table_name = table_name lc, listener_protocol = protocol1,
               listener_addr = a, listener_addr_len = a_len\<rparr>
      in (1, config\<lparr>listeners := l # listeners config\<rparr>))"

section \<open>Routing\<close>

text \<open>
  Modelled from the spec: the Table (table.c is not among the sources) is the ordered
  sequence of Backend entries, here a hostname pattern and an address each; lookup
  returns the first entry whose pattern matches the hostname, compared case-insensitively
  for an exact match. Without a hostname no entry matches.
\<close>

type_synonym Table = "(string \<times> Address) list"

definition table_lookup :: "Table \<Rightarrow> string option \<Rightarrow> Address option" where
  "table_lookup tbl hn =
     (case hn of
        None \<Rightarrow> None
      | Some h \<Rightarrow> map_option snd (find (\<lambda>(pat, a). map tolower pat = map tolower h) tbl))"

text \<open>
  Modelled from the spec: \<^verbatim>\<open>listener_lookup_server_address\<close> (listener.c is not among the
  sources) returns the address of the table's first match; if no entry matches, the
  listener's fallback; and without a fallback a sentinel that the core maps to close,
  here a hostname-valued address, which \<^verbatim>\<open>resolve_server_address\<close> answers by closing
  the client.
\<close>

definition listener_lookup_server_address_spec ::
  "Table \<Rightarrow> Listener \<Rightarrow> string option \<Rightarrow> Address" where
  "listener_lookup_server_address_spec tbl l hn =
     (case table_lookup tbl hn of
        Some a \<Rightarrow> a
      | None \<Rightarrow> (case fallback_address l of Some a \<Rightarrow> a | None \<Rightarrow> HOSTNAME []))"

subsection \<open>Example values\<close>

text \<open>
  A parser that asks for more data until it has seen \<open>n\<close> bytes, as the TLS parser
  does while the record is shorter than its header announces.
\<close>

definition ex_parser :: "nat \<Rightarrow> char list \<Rightarrow> int \<times> string option" where
  "ex_parser n bs = (if length bs < n then (- 1, None) else (0, Some ''example.com''))"

definition ex_listener :: Listener where
  "ex_listener = \<lparr>parse_packet = ex_parser 1461, fallback_address = None\<rparr>"

definition ex_sockaddr :: sockaddr_storage where
  "ex_sockaddr = \<lparr>ss_family = 2, sa_len = 16, sa_data = []\<rparr>"

definition ex_accept_env :: AcceptEnv where
  "ex_accept_env = \<lparr>calloc_result = Some 0,
     new_buffer_client = Some \<lparr>capacity = 4096, pending = []\<rparr>,
     new_buffer_server = Some \<lparr>capacity = 4096, pending = []\<rparr>,
     accept_result = 5, accept_addr = ex_sockaddr\<rparr>"

text \<open>The process after it has accepted its first connection.\<close>

definition ex_accepted :: World where
  "ex_accepted = accept_connection ex_listener ex_accept_env init_connections"

text \<open>The first connection as \<^verbatim>\<open>accept_connection\<close> leaves it.\<close>

definition ex_con :: Connection where
  "ex_con = \<lparr>state = ACCEPTED,
     client = \<lparr>addr = ex_sockaddr, addr_len = 16,
               watcher = \<lparr>active = True, fd = 5, events = EV_READ\<rparr>,
               buffer = \<lparr>capacity = 4096, pending = []\<rparr>, sock_open = True\<rparr>,
     server = \<lparr>addr = zero_sockaddr, addr_len = 128, watcher = zero_watcher,
               buffer = \<lparr>capacity = 4096, pending = []\<rparr>, sock_open = False\<rparr>,
     hostname = None, listener = Some ex_listener, syscalls = [Sys_accept 5]\<rparr>"

text \<open>
  The answers of the environment during one callback: \<open>r\<close> is the outcome of
  \<^verbatim>\<open>recv\<close>; \<^verbatim>\<open>socket\<close> returns descriptor 6 and \<^verbatim>\<open>connect\<close> is in progress.
\<close>

definition ex_env :: "int + char list \<Rightarrow> Env" where
  "ex_env r = \<lparr>recv_outcome = r, send_outcome = Inr 0, socket_result = 6,
     connect_result = (- 1, EINPROGRESS),
     listener_lookup_server_address = (\<lambda>l h. SOCKADDR ex_sockaddr)\<rparr>"

text \<open>The first connection after a callback in which it received three bytes.\<close>

definition ex_con_data :: Connection where
  "ex_con_data = ex_con\<lparr>client := (client ex_con)\<lparr>buffer := \<lparr>capacity = 4096, pending = ''abc''\<rparr>\<rparr>,
     syscalls := [Sys_accept 5, Sys_recv 5]\<rparr>"

text \<open>The first connection, had its listener parser \<open>p\<close> and fallback \<open>fb\<close>.\<close>

definition ex_con_with :: "(char list \<Rightarrow> int \<times> string option) \<Rightarrow> Address option \<Rightarrow> Connection" where
  "ex_con_with p fb = ex_con\<lparr>listener := Some \<lparr>parse_packet = p, fallback_address = fb\<rparr>\<rparr>"

text \<open>
  A run of one connection: accepted on a listener whose parser succeeds once three bytes
  are there; the client sends \<open>abc\<close> and the backend connection is started; the backend
  sends \<open>x\<close>; the backend closes its side, which leaves the Connection in SERVER_CLOSED
  with one byte still to deliver to the client.
\<close>

definition ex_listener_ok :: Listener where
  "ex_listener_ok = \<lparr>parse_packet = ex_parser 3, fallback_address = None\<rparr>"

definition ex_world :: "Connection \<Rightarrow> World" where
  "ex_world con = \<lparr>connections = [0], heap = [0 \<mapsto> con], freed = []\<rparr>"

definition ex_connected :: Connection where
  "ex_connected = \<lparr>state = CONNECTED,
     client = \<lparr>addr = ex_sockaddr, addr_len = 16,
               watcher = \<lparr>active = True, fd = 5, events = 1\<rparr>,
               buffer = \<lparr>capacity = 4096, pending = ''abc''\<rparr>, sock_open = True\<rparr>,
     server = \<lparr>addr = ex_sockaddr, addr_len = 16,
               watcher = \<lparr>active = True, fd = 6, events = 3\<rparr>,
               buffer = \<lparr>capacity = 4096, pending = []\<rparr>, sock_open = True\<rparr>,
     hostname = Some ''example.com'', listener = Some ex_listener_ok,
     syscalls = [Sys_accept 5, Sys_recv 5, Sys_socket 6, Sys_connect 6]\<rparr>"

definition ex_relaying :: Connection where
  "ex_relaying = ex_connected\<lparr>
     client := (client ex_connected)\<lparr>watcher := \<lparr>active = True, fd = 5, events = 3\<rparr>\<rparr>,
     server := (server ex_connected)\<lparr>buffer := \<lparr>capacity = 4096, pending = ''x''\<rparr>\<rparr>,
     syscalls := [Sys_accept 5, Sys_recv 5, Sys_socket 6, Sys_connect 6, Sys_recv 6]\<rparr>"

definition ex_half_closed :: Connection where
  "ex_half_closed = ex_relaying\<lparr>
     server := (server ex_relaying)\<lparr>watcher := \<lparr>active = False, fd = 6, events = 3\<rparr>,
                                     sock_open := False\<rparr>,
     syscalls := [Sys_accept 5, Sys_recv 5, Sys_socket 6, Sys_connect 6, Sys_recv 6,
                  Sys_recv 6, Sys_close 6],
     state := SERVER_CLOSED\<rparr>"

text \<open>The same Connection after the client, too, has closed its side.\<close>

definition ex_closed_early :: Connection where
  "ex_closed_early = ex_half_closed\<lparr>
     client := (client ex_half_closed)\<lparr>watcher := \<lparr>active = False, fd = 5, events = 3\<rparr>,
                                        sock_open := False\<rparr>,
     syscalls := [Sys_accept 5, Sys_recv 5, Sys_socket 6, Sys_connect 6, Sys_recv 6,
                  Sys_recv 6, Sys_close 6, Sys_recv 5, Sys_close 5],
     state := CLOSED\<rparr>"

text \<open>The relaying Connection after the client, not the backend, has closed its side.\<close>

definition ex_client_closed :: Connection where
  "ex_client_closed = ex_relaying\<lparr>
     client := (client ex_relaying)\<lparr>watcher := \<lparr>active = False, fd = 5, events = 3\<rparr>,
                                     sock_open := False\<rparr>,
     syscalls := [Sys_accept 5, Sys_recv 5, Sys_socket 6, Sys_connect 6, Sys_recv 6,
                  Sys_recv 5, Sys_close 5],
     state := CLIENT_CLOSED\<rparr>"

text \<open>A table with one entry, whose address is not the fallback's.\<close>

definition ex_table :: Table where
  "ex_table = [(''example.com'', SOCKADDR \<lparr>ss_family = 2, sa_len = 16, sa_data = ''backend''\<rparr>)]"

section \<open>Invariants\<close>

lemma bind_err_Inr: "bind_err r f = Inr y \<longleftrightarrow> (\<exists>x. r = Inr x \<and> f x = Inr y)"
  by (cases r) (simp_all add: bind_err_def)

lemma close_client_socket_inv:
  "close_client_socket con = Inr con' \<Longrightarrow> conn_inv con \<Longrightarrow> conn_inv con'"
  by (cases "state con")
     (auto simp: close_client_socket_def conn_inv_def client_socket_open_def
      server_socket_open_def ev_is_active_def ev_io_stop_def split: if_splits)

lemma close_server_socket_inv:
  "close_server_socket con = Inr con' \<Longrightarrow> conn_inv con \<Longrightarrow> conn_inv con'"
  by (cases "state con")
     (auto simp: close_server_socket_def conn_inv_def client_socket_open_def
      server_socket_open_def ev_is_active_def ev_io_stop_def split: if_splits)

lemma close_socket_inv:
  "close_socket b con = Inr con' \<Longrightarrow> conn_inv con \<Longrightarrow> conn_inv con'"
  by (auto simp: close_socket_def close_client_socket_inv close_server_socket_inv split: if_splits)

lemma conn_inv_buffers [simp]:
  "conn_inv (con\<lparr>client := (client con)\<lparr>buffer := b\<rparr>\<rparr>) = conn_inv con"
  "conn_inv (con\<lparr>server := (server con)\<lparr>buffer := b\<rparr>\<rparr>) = conn_inv con"
  "conn_inv (con\<lparr>syscalls := l\<rparr>) = conn_inv con"
  by (simp_all add: conn_inv_def client_socket_open_def server_socket_open_def)

lemma cb_receive_inv:
  "cb_receive env b r con = Inr (con', r') \<Longrightarrow> conn_inv con \<Longrightarrow> conn_inv con'"
  unfolding cb_receive_def Let_def
  by (auto simp: bind_err_Inr split: if_splits prod.splits dest!: close_socket_inv)

lemma cb_transmit_inv:
  "cb_transmit env b r con = Inr con' \<Longrightarrow> conn_inv con \<Longrightarrow> conn_inv con'"
  unfolding cb_transmit_def Let_def
  by (auto simp: bind_err_Inr split: if_splits prod.splits dest!: close_socket_inv)

lemma parse_client_request_inv:
  "parse_client_request con = Inr con' \<Longrightarrow> conn_inv con \<Longrightarrow> state con = ACCEPTED \<Longrightarrow> conn_inv con'"
  unfolding parse_client_request_def Let_def
  by (auto simp: conn_inv_def client_socket_open_def server_socket_open_def
      split: if_splits prod.splits option.splits dest!: close_client_socket_inv)


lemma resolve_server_address_inv:
  "resolve_server_address env con = Inr con' \<Longrightarrow> conn_inv con \<Longrightarrow> state con = PARSED \<Longrightarrow> conn_inv con'"
  unfolding resolve_server_address_def Let_def
  by (auto simp: conn_inv_def client_socket_open_def server_socket_open_def
      split: if_splits option.splits Address.splits dest!: close_client_socket_inv)

lemma initiate_server_connect_inv:
  "initiate_server_connect env con = Inr con' \<Longrightarrow> conn_inv con \<Longrightarrow> state con = RESOLVED \<Longrightarrow> conn_inv con'"
  unfolding initiate_server_connect_def Let_def
  by (auto simp: conn_inv_def client_socket_open_def server_socket_open_def
      ev_is_active_def ev_io_start_def ev_io_init_def
      split: if_splits prod.splits)

lemma cb_state_inv:
  assumes "cb_state env b con = Inr con'" and "conn_inv con"
  shows "conn_inv con'"
proof -
  from assms(1) obtain c1 c2 c3 c4 where
    s1: "(if b \<and> state con = ACCEPTED then parse_client_request con else Inr con) = Inr c1" and
    s2: "(if b \<and> state c1 = PARSED then resolve_server_address env c1 else Inr c1) = Inr c2" and
    s3: "(if b \<and> state c2 = RESOLVED then initiate_server_connect env c2 else Inr c2) = Inr c3" and
    s4: "(if state c3 = SERVER_CLOSED \<and> buffer_len (buffer (server c3)) = 0
          then close_client_socket c3 else Inr c3) = Inr c4" and
    s5: "(if state c4 = CLIENT_CLOSED \<and> buffer_len (buffer (client c4)) = 0
          then close_server_socket c4 else Inr c4) = Inr con'"
    unfolding cb_state_def bind_err_Inr by blast
  have i1: "conn_inv c1" using s1 assms(2)
    by (auto split: if_splits dest: parse_client_request_inv)
  have i2: "conn_inv c2" using s2 i1
    by (auto split: if_splits dest: resolve_server_address_inv)
  have i3: "conn_inv c3" using s3 i2
    by (auto split: if_splits dest: initiate_server_connect_inv)
  have i4: "conn_inv c4" using s4 i3
    by (auto split: if_splits dest: close_client_socket_inv)
  show ?thesis using s5 i4
    by (auto split: if_splits dest: close_server_socket_inv)
qed

lemma cb_steps_Inr:
  "cb_steps env b r con = Inr con' \<longleftrightarrow>
   (\<exists>c1 r1 c2. cb_receive env b r con = Inr (c1, r1) \<and> cb_transmit env b r1 c1 = Inr c2 \<and>
      cb_state env b c2 = Inr con')"
  by (auto simp: cb_steps_def bind_err_Inr)

lemma cb_steps_inv:
  assumes "cb_steps env b r con = Inr con'" and "conn_inv con"
  shows "conn_inv con'"
proof -
  from assms(1) obtain c1 r1 c2 where
    s1: "cb_receive env b r con = Inr (c1, r1)" and
    s2: "cb_transmit env b r1 c1 = Inr c2" and
    s3: "cb_state env b c2 = Inr con'"
    unfolding cb_steps_Inr by blast
  from s1 assms(2) have "conn_inv c1" by (rule cb_receive_inv)
  with s2 have "conn_inv c2" by (rule cb_transmit_inv)
  with s3 show ?thesis by (rule cb_state_inv)
qed

lemma cb_reactivate_simps [simp]:
  "state (cb_reactivate con) = state con"
  "sock_open (client (cb_reactivate con)) = sock_open (client con)"
  "sock_open (server (cb_reactivate con)) = sock_open (server con)"
  "buffer (client (cb_reactivate con)) = buffer (client con)"
  "buffer (server (cb_reactivate con)) = buffer (server con)"
  "syscalls (cb_reactivate con) = syscalls con"
  "hostname (cb_reactivate con) = hostname con"
  "listener (cb_reactivate con) = listener con"
  "client_socket_open (cb_reactivate con) = client_socket_open con"
  "server_socket_open (cb_reactivate con) = server_socket_open con"
  by (simp_all add: cb_reactivate_def Let_def client_socket_open_def server_socket_open_def)

lemma cb_reactivate_inv: "conn_inv con \<Longrightarrow> conn_inv (cb_reactivate con)"
  by (simp add: conn_inv_def)
     (auto simp: cb_reactivate_def Let_def client_socket_open_def server_socket_open_def)

lemma cb_asserts_Inr: "cb_asserts con = Inr con' \<Longrightarrow> con' = con"
  by (simp add: cb_asserts_def Let_def split: if_splits)

lemma connection_cb_inv:
  assumes "connection_cb env c b r w = Inr w'" and "world_inv w"
  shows "world_inv w'"
proof -
  from assms(1) obtain con where hc: "heap w c = Some con"
    by (auto simp: connection_cb_def split: option.splits)
  with assms(1) obtain con3 where
    st: "cb_steps env b r con = Inr con3" and
    rest: "(if state con3 = CLOSED then Inr (free_connection c con3 (TAILQ_REMOVE c w))
            else bind_err (cb_asserts (cb_reactivate con3)) (\<lambda>con4.
              Inr (TAILQ_INSERT_HEAD c (TAILQ_REMOVE c (w\<lparr>heap := (heap w)(c \<mapsto> con4)\<rparr>))))) = Inr w'"
    by (auto simp: connection_cb_def bind_err_Inr)
  from assms(2) hc have "conn_inv con" by (simp add: world_inv_def)
  with st have i3: "conn_inv con3" by (rule cb_steps_inv)
  from assms(2) hc have cin: "c \<in> set (connections w)" by (auto simp: world_inv_def)
  show ?thesis
  proof (cases "state con3 = CLOSED")
    case True
    with rest have w': "w' = free_connection c con3 (TAILQ_REMOVE c w)" by simp
    show ?thesis using assms(2) cin unfolding w'
      by (auto simp: world_inv_def free_connection_def TAILQ_REMOVE_def split: if_splits)
  next
    case False
    with rest have w': "w' = TAILQ_INSERT_HEAD c (TAILQ_REMOVE c (w\<lparr>heap := (heap w)(c \<mapsto> cb_reactivate con3)\<rparr>))"
      by (auto simp: bind_err_Inr dest: cb_asserts_Inr)
    show ?thesis using assms(2) cin cb_reactivate_inv[OF i3] False unfolding w'
      by (auto simp: world_inv_def TAILQ_INSERT_HEAD_def TAILQ_REMOVE_def split: if_splits)
  qed
qed


lemma accept_connection_inv:
  assumes "world_inv w" and "\<forall>c. calloc_result aenv = Some c \<longrightarrow> heap w c = None"
  shows "world_inv (accept_connection l aenv w)"
proof (cases "new_connection aenv")
  case None
  then show ?thesis using assms(1) by (simp add: accept_connection_def)
next
  case (Some p)
  obtain c con where p: "p = (c, con)" by (cases p)
  from Some p have cr: "calloc_result aenv = Some c"
    by (auto simp: new_connection_def split: option.splits)
  with assms(2) have fresh: "heap w c = None" by simp
  with assms(1) have notin: "c \<notin> set (connections w)" by (auto simp: world_inv_def)
  have upd: "(heap w)(c := None) = heap w" using fresh by (auto simp: fun_eq_iff)
  show ?thesis
  proof (cases "accept_result aenv < 0")
    case True
    then show ?thesis using assms(1) Some p upd
      by (simp add: accept_connection_def free_connection_def world_inv_def)
  next
    case False
    then show ?thesis using assms(1) Some p notin fresh
      by (auto simp: accept_connection_def Let_def TAILQ_INSERT_HEAD_def world_inv_def
          conn_inv_def client_socket_open_def server_socket_open_def new_connection_def
          ev_is_active_def ev_io_init_def ev_io_start_def zero_watcher_def
          split: option.splits if_splits)
  qed
qed

lemma close_connection_closed:
  "close_connection con = Inr con' \<Longrightarrow> state con' = CLOSED"
  by (auto simp: close_connection_def bind_err_Inr split: if_splits)

lemma free_connections_inv:
  "world_inv w \<Longrightarrow> free_connections w = Inr w' \<Longrightarrow> world_inv w' \<and> connections w' = []"
proof (induction w rule: free_connections.induct)
  case (1 w)
  show ?case
  proof (cases "connections w")
    case Nil
    with "1.prems" show ?thesis by (simp add: free_connections.simps)
  next
    case (Cons iter rest)
    from "1.prems"(1) Cons have "iter \<in> dom (heap w)"
      unfolding world_inv_def by (metis list.set_intros(1))
    then obtain con where hc: "heap w iter = Some con" by blast
    then have hc1: "heap (TAILQ_REMOVE iter w) iter = Some con" by (simp add: TAILQ_REMOVE_def)
    from "1.prems"(2) Cons hc1 obtain con1 where
      cc: "close_connection con = Inr con1" and
      rec: "free_connections (free_connection iter con1 (TAILQ_REMOVE iter w)) = Inr w'"
      by (auto simp: free_connections.simps[of w] Let_def split: sum.splits)
    have "world_inv (free_connection iter con1 (TAILQ_REMOVE iter w))"
      using "1.prems"(1) Cons
      by (auto simp: world_inv_def free_connection_def TAILQ_REMOVE_def split: if_splits)
    with "1.IH"[OF Cons refl hc1 cc] rec show ?thesis by simp
  qed
qed

lemma reachable_inv: "reachable w \<Longrightarrow> world_inv w"
proof (induction rule: reachable.induct)
  case reach_init
  show ?case by (simp add: world_inv_def init_connections_def)
next
  case (reach_accept w aenv l)
  then show ?case by (simp add: accept_connection_inv)
next
  case (reach_cb w c con is_client env revents w')
  then show ?case by (blast intro: connection_cb_inv)
next
  case (reach_free w w')
  then show ?case by (blast dest: free_connections_inv)
qed


lemma connection_cb_closed:
  "heap w c = Some con \<Longrightarrow> cb_steps env b r con = Inr con3 \<Longrightarrow> state con3 = CLOSED \<Longrightarrow>
   connection_cb env c b r w = Inr (free_connection c con3 (TAILQ_REMOVE c w))"
  by (simp add: connection_cb_def bind_err_def)

lemma connection_cb_open:
  "heap w c = Some con \<Longrightarrow> cb_steps env b r con = Inr con3 \<Longrightarrow> state con3 \<noteq> CLOSED \<Longrightarrow>
   connection_cb env c b r w =
     bind_err (cb_asserts (cb_reactivate con3)) (\<lambda>con4.
       Inr (TAILQ_INSERT_HEAD c (TAILQ_REMOVE c (w\<lparr>heap := (heap w)(c \<mapsto> con4)\<rparr>))))"
  by (simp add: connection_cb_def bind_err_def)

lemma ex_accepted_reachable: "reachable ex_accepted"
  unfolding ex_accepted_def
  by (rule reach_accept[OF reach_init]) (simp add: init_connections_def)

lemma ex_accepted_simp:
  "ex_accepted = \<lparr>connections = [0], heap = [0 \<mapsto> ex_con], freed = []\<rparr>"
  by (simp add: ex_accepted_def accept_connection_def new_connection_def ex_accept_env_def
      init_connections_def TAILQ_INSERT_HEAD_def ev_io_init_def ev_io_start_def Let_def
      ex_con_def ex_sockaddr_def)

lemma ex_accepted_heap:
  "heap ex_accepted 0 = Some ex_con" "connections ex_accepted = [0]" "freed ex_accepted = []"
  by (simp_all add: ex_accepted_simp)

lemma ex_steps_eof:
  "cb_steps (ex_env (Inr [])) True EV_READ ex_con =
     Inr (ex_con\<lparr>client := (client ex_con)\<lparr>watcher := \<lparr>active = False, fd = 5, events = EV_READ\<rparr>,
                     sock_open := False\<rparr>,
                  syscalls := [Sys_accept 5, Sys_recv 5, Sys_close 5], state := CLOSED\<rparr>)"
  by (simp add: cb_steps_def cb_receive_def cb_transmit_def cb_state_def ex_con_def ex_env_def
      buffer_room_def buffer_len_def buffer_recv_def bind_err_def close_socket_def
      close_client_socket_def ev_io_stop_def Let_def)

lemma ex_steps_data:
  "cb_steps (ex_env (Inr ''abc'')) True EV_READ ex_con =
     Inr (ex_con\<lparr>client := (client ex_con)\<lparr>buffer := \<lparr>capacity = 4096, pending = ''abc''\<rparr>\<rparr>,
                  syscalls := [Sys_accept 5, Sys_recv 5]\<rparr>)"
  by (simp add: cb_steps_def cb_receive_def cb_transmit_def cb_state_def ex_con_def ex_env_def
      buffer_room_def buffer_len_def buffer_recv_def bind_err_def close_socket_def
      parse_client_request_def buffer_peek_def ex_listener_def ex_parser_def
      close_client_socket_def ev_io_stop_def Let_def)


lemma ex_cb_data:
  "\<exists>w'. connection_cb (ex_env (Inr ''abc'')) 0 True EV_READ ex_accepted = Inr w'"
  using connection_cb_open[OF ex_accepted_heap(1) ex_steps_data]
  by (simp add: bind_err_def cb_asserts_def cb_reactivate_def reactivate_watcher_def
      client_socket_open_def server_socket_open_def ex_con_def ev_is_active_def
      buffer_room_def buffer_len_def Let_def zero_watcher_def)

lemma close_connection_total:
  assumes "conn_inv con"
  shows "\<exists>con'. force_closed con con'"
  using assms
  by (cases "state con")
     (simp_all add: force_closed_def close_connection_def bind_err_def conn_inv_def
      close_server_socket_def close_client_socket_def client_socket_open_def
      server_socket_open_def)

lemma close_connection_NEW:
  "close_connection con = Inl (AssertFailed 433) \<longleftrightarrow> state con = NEW"
  by (cases "state con")
     (simp_all add: close_connection_def bind_err_def
      close_server_socket_def close_client_socket_def)

lemma free_connections_all:
  "world_inv w \<Longrightarrow>
   \<exists>w' cons. free_connections w = Inr w' \<and> connections w' = [] \<and> heap w' = Map.empty \<and>
     freed w' = rev cons @ freed w \<and>
     list_all2 (\<lambda>c con'. \<exists>con. heap w c = Some con \<and> force_closed con con') (connections w) cons"
proof (induction w rule: free_connections.induct)
  case (1 w)
  show ?case
  proof (cases "connections w")
    case Nil
    with "1.prems" have "heap w = Map.empty" by (auto simp: world_inv_def)
    with Nil show ?thesis by (simp add: free_connections.simps[of w])
  next
    case (Cons iter rest)
    from "1.prems"(1) Cons have "iter \<in> dom (heap w)"
      unfolding world_inv_def by (metis list.set_intros(1))
    then obtain con where hc: "heap w iter = Some con" by blast
    then have hc1: "heap (TAILQ_REMOVE iter w) iter = Some con" by (simp add: TAILQ_REMOVE_def)
    from "1.prems" hc have "conn_inv con" by (simp add: world_inv_def)
    then obtain con1 where fc: "force_closed con con1" using close_connection_total by blast
    then have cc: "close_connection con = Inr con1" by (simp add: force_closed_def)
    let ?w1 = "free_connection iter con1 (TAILQ_REMOVE iter w)"
    have w1: "connections ?w1 = rest" "heap ?w1 = (heap w)(iter := None)"
      "freed ?w1 = con1 # freed w"
      using Cons by (simp_all add: free_connection_def TAILQ_REMOVE_def)
    have "world_inv ?w1"
      using "1.prems"(1) Cons
      by (auto simp: world_inv_def free_connection_def TAILQ_REMOVE_def split: if_splits)
    from "1.IH"[OF Cons refl hc1 cc this] obtain w' cons where
      r: "free_connections ?w1 = Inr w'" "connections w' = []" "heap w' = Map.empty"
         "freed w' = rev cons @ freed ?w1"
         "list_all2 (\<lambda>c con'. \<exists>con. heap ?w1 c = Some con \<and> force_closed con con')
            (connections ?w1) cons"
      by blast
    have step: "free_connections w = free_connections ?w1"
      using Cons hc1 cc by (simp add: free_connections.simps[of w] Let_def)
    have "list_all2 (\<lambda>c con'. \<exists>con. heap w c = Some con \<and> force_closed con con') rest cons"
      using r(5) unfolding w1
      by (rule list_all2_mono) (auto split: if_splits)
    with hc fc have l: "list_all2 (\<lambda>c con'. \<exists>con. heap w c = Some con \<and> force_closed con con')
        (connections w) (con1 # cons)"
      using Cons by simp
    have f: "freed w' = rev (con1 # cons) @ freed w" using r(4) w1 by simp
    have "free_connections w = Inr w'" using step r(1) by simp
    with r(2,3) f l show ?thesis by blast
  qed
qed

lemma reactivate_watcher_interest:
  "interest (reactivate_watcher w i ob) = desired_events i ob"
  by (simp add: interest_def reactivate_watcher_def desired_events_def Let_def
      ev_is_active_def ev_io_stop_def ev_io_start_def ev_io_set_def)

lemma reactivate_watcher_cases:
  "fd (reactivate_watcher w i ob) = fd w"
  "desired_events i ob = 0 \<Longrightarrow> \<not> ev_is_active (reactivate_watcher w i ob)"
  "ev_is_active w \<Longrightarrow> desired_events i ob \<noteq> 0 \<Longrightarrow> desired_events i ob \<noteq> events w \<Longrightarrow>
     reactivate_watcher w i ob = ev_io_start (ev_io_set (ev_io_stop w) (fd w) (desired_events i ob))"
  "ev_is_active w \<Longrightarrow> desired_events i ob = events w \<Longrightarrow> events w \<noteq> 0 \<Longrightarrow> reactivate_watcher w i ob = w"
  "\<not> ev_is_active w \<Longrightarrow> desired_events i ob \<noteq> 0 \<Longrightarrow>
     reactivate_watcher w i ob = ev_io_start (ev_io_set w (fd w) (desired_events i ob))"
  by (auto simp add: reactivate_watcher_def desired_events_def Let_def
      ev_is_active_def ev_io_stop_def ev_io_start_def ev_io_set_def split: if_splits)

lemma cb_reactivate_watchers:
  "watcher (client (cb_reactivate con)) =
     (if client_socket_open con
      then reactivate_watcher (watcher (client con)) (buffer (client con)) (buffer (server con))
      else watcher (client con))"
  "watcher (server (cb_reactivate con)) =
     (if server_socket_open con
      then reactivate_watcher (watcher (server con)) (buffer (server con)) (buffer (client con))
      else watcher (server con))"
  by (simp_all add: cb_reactivate_def Let_def client_socket_open_def server_socket_open_def)

lemma connection_cb_result:
  assumes "connection_cb env c b r w = Inr w'"
  shows "\<exists>con con3. heap w c = Some con \<and> cb_steps env b r con = Inr con3 \<and>
     (if state con3 = CLOSED then w' = free_connection c con3 (TAILQ_REMOVE c w)
      else cb_asserts (cb_reactivate con3) = Inr (cb_reactivate con3) \<and>
           w' = TAILQ_INSERT_HEAD c (TAILQ_REMOVE c (w\<lparr>heap := (heap w)(c \<mapsto> cb_reactivate con3)\<rparr>)))"
proof -
  from assms obtain con where hc: "heap w c = Some con"
    by (auto simp: connection_cb_def split: option.splits)
  with assms obtain con3 where st: "cb_steps env b r con = Inr con3"
    by (auto simp: connection_cb_def bind_err_Inr)
  show ?thesis
  proof (cases "state con3 = CLOSED")
    case True
    with connection_cb_closed[OF hc st True] assms hc st show ?thesis by auto
  next
    case False
    with assms hc st show ?thesis
      unfolding connection_cb_open[OF hc st False]
      by (auto simp: bind_err_Inr dest: cb_asserts_Inr)
  qed
qed

lemma ex_cb_data_result:
  "connection_cb (ex_env (Inr ''abc'')) 0 True EV_READ ex_accepted =
     Inr \<lparr>connections = [0], heap = [0 \<mapsto> ex_con_data], freed = []\<rparr>"
  using connection_cb_open[OF ex_accepted_heap(1) ex_steps_data]
  by (simp add: bind_err_def cb_asserts_def cb_reactivate_def reactivate_watcher_def
      client_socket_open_def server_socket_open_def ex_con_def ev_is_active_def
      buffer_room_def buffer_len_def Let_def zero_watcher_def ex_accepted_simp
      TAILQ_INSERT_HEAD_def TAILQ_REMOVE_def ex_con_data_def)

lemma close_socket_syscalls:
  "close_socket b con = Inr con' \<Longrightarrow>
   syscalls con' = syscalls con @ [Sys_close (fd (watcher (fired b con)))] \<and>
   \<not> sock_open (fired b con') \<and> buffer (client con') = buffer (client con) \<and>
   buffer (server con') = buffer (server con)"
  by (auto simp: close_socket_def close_client_socket_def close_server_socket_def fired_def
      split: if_splits)

lemma cb_receive_syscalls:
  assumes "cb_receive env b r con = Inr (c1, r1)"
  shows "\<exists>n1. syscalls c1 = syscalls con @ n1 \<and> (\<forall>x \<in> set n1. \<not> is_send x) \<and>
           (r1 = r \<and> (\<forall>d. Sys_close d \<notin> set n1) \<or> r1 = 0)"
  using assms unfolding cb_receive_def Let_def
  by (auto simp: bind_err_Inr is_send_def split: if_splits prod.splits
      dest!: close_socket_syscalls)

lemma cb_transmit_syscalls:
  assumes "cb_transmit env b r1 c1 = Inr c2"
  shows "\<exists>n2. syscalls c2 = syscalls c1 @ n2 \<and> (r1 = 0 \<longrightarrow> n2 = []) \<and>
           (n2 = [] \<or> (\<exists>d rest. n2 = Sys_send d # rest \<and> (\<forall>x \<in> set rest. \<not> is_send x)))"
  using assms unfolding cb_transmit_def Let_def
  by (auto simp: bind_err_Inr is_send_def split: if_splits prod.splits
      dest!: close_socket_syscalls)


lemma extends_nosend_refl [simp]: "extends_nosend con con"
  by (simp add: extends_nosend_def)

lemma extends_nosend_trans:
  "extends_nosend a b \<Longrightarrow> extends_nosend b c \<Longrightarrow> extends_nosend a c"
  by (auto simp: extends_nosend_def)

lemma close_client_socket_nosend:
  "close_client_socket con = Inr con' \<Longrightarrow> extends_nosend con con'"
  by (auto simp: close_client_socket_def extends_nosend_def is_send_def split: if_splits)

lemma close_server_socket_nosend:
  "close_server_socket con = Inr con' \<Longrightarrow> extends_nosend con con'"
  by (auto simp: close_server_socket_def extends_nosend_def is_send_def split: if_splits)

lemma parse_client_request_nosend:
  "parse_client_request con = Inr con' \<Longrightarrow> extends_nosend con con'"
  unfolding parse_client_request_def Let_def
  by (auto simp: extends_nosend_def split: if_splits prod.splits option.splits
      dest!: close_client_socket_nosend)

lemma resolve_server_address_nosend:
  "resolve_server_address env con = Inr con' \<Longrightarrow> extends_nosend con con'"
  unfolding resolve_server_address_def Let_def
  by (auto simp: extends_nosend_def split: if_splits option.splits Address.splits
      dest!: close_client_socket_nosend)

lemma initiate_server_connect_nosend:
  "initiate_server_connect env con = Inr con' \<Longrightarrow> extends_nosend con con'"
  unfolding initiate_server_connect_def Let_def
  by (auto simp: extends_nosend_def is_send_def split: if_splits prod.splits)

lemma cb_state_nosend:
  assumes "cb_state env b con = Inr con'"
  shows "extends_nosend con con'"
proof -
  from assms obtain c1 c2 c3 c4 where
    s1: "(if b \<and> state con = ACCEPTED then parse_client_request con else Inr con) = Inr c1" and
    s2: "(if b \<and> state c1 = PARSED then resolve_server_address env c1 else Inr c1) = Inr c2" and
    s3: "(if b \<and> state c2 = RESOLVED then initiate_server_connect env c2 else Inr c2) = Inr c3" and
    s4: "(if state c3 = SERVER_CLOSED \<and> buffer_len (buffer (server c3)) = 0
          then close_client_socket c3 else Inr c3) = Inr c4" and
    s5: "(if state c4 = CLIENT_CLOSED \<and> buffer_len (buffer (client c4)) = 0
          then close_server_socket c4 else Inr c4) = Inr con'"
    unfolding cb_state_def bind_err_Inr by blast
  have "extends_nosend con c1" using s1
    by (auto split: if_splits dest: parse_client_request_nosend)
  moreover have "extends_nosend c1 c2" using s2
    by (auto split: if_splits dest: resolve_server_address_nosend)
  moreover have "extends_nosend c2 c3" using s3
    by (auto split: if_splits dest: initiate_server_connect_nosend)
  moreover have "extends_nosend c3 c4" using s4
    by (auto split: if_splits dest: close_client_socket_nosend)
  moreover have "extends_nosend c4 con'" using s5
    by (auto split: if_splits dest: close_server_socket_nosend)
  ultimately show ?thesis by (blast intro: extends_nosend_trans)
qed

lemma no_send_after_close_nosend:
  "\<forall>x \<in> set xs. \<not> is_send x \<Longrightarrow> no_send_after_close xs"
proof (induction xs)
  case Nil
  show ?case by simp
next
  case (Cons x xs)
  then show ?case by (cases x) simp_all
qed

lemma no_send_after_close_noclose:
  "\<forall>d. Sys_close d \<notin> set pre \<Longrightarrow> no_send_after_close (pre @ xs) = no_send_after_close xs"
proof (induction pre)
  case Nil
  show ?case by simp
next
  case (Cons x pre)
  from Cons.prems have a: "\<forall>d. Sys_close d \<notin> set pre" and b: "\<forall>d. x \<noteq> Sys_close d"
    by auto
  from b Cons.IH[OF a] show ?case by (cases x) simp_all
qed

lemma cb_steps_no_send_after_close:
  assumes "cb_steps env b r con = Inr con3"
  shows "\<exists>new. syscalls con3 = syscalls con @ new \<and> no_send_after_close new"
proof -
  from assms obtain c1 r1 c2 where
    s1: "cb_receive env b r con = Inr (c1, r1)" and
    s2: "cb_transmit env b r1 c1 = Inr c2" and
    s3: "cb_state env b c2 = Inr con3"
    unfolding cb_steps_Inr by blast
  from cb_receive_syscalls[OF s1] obtain n1 where
    n1: "syscalls c1 = syscalls con @ n1" "\<forall>x \<in> set n1. \<not> is_send x"
        "r1 = r \<and> (\<forall>d. Sys_close d \<notin> set n1) \<or> r1 = 0"
    by blast
  from cb_transmit_syscalls[OF s2] obtain n2 where
    n2: "syscalls c2 = syscalls c1 @ n2" "r1 = 0 \<longrightarrow> n2 = []"
        "n2 = [] \<or> (\<exists>d rest. n2 = Sys_send d # rest \<and> (\<forall>x \<in> set rest. \<not> is_send x))"
    by blast
  from cb_state_nosend[OF s3] obtain n3 where
    n3: "syscalls con3 = syscalls c2 @ n3" "\<forall>x \<in> set n3. \<not> is_send x"
    unfolding extends_nosend_def by blast
  have eq: "syscalls con3 = syscalls con @ (n1 @ n2 @ n3)" using n1(1) n2(1) n3(1) by simp
  have "no_send_after_close (n1 @ n2 @ n3)"
  proof (cases "n2 = []")
    case True
    with n1(2) n3(2) show ?thesis by (auto intro!: no_send_after_close_nosend)
  next
    case False
    with n2(3) obtain d rest where
      r: "n2 = Sys_send d # rest" "\<forall>x \<in> set rest. \<not> is_send x" by blast
    from False n2(2) n1(3) have nc: "\<forall>d. Sys_close d \<notin> set n1" by auto
    have "no_send_after_close (rest @ n3)"
      using r(2) n3(2) by (auto intro!: no_send_after_close_nosend)
    then show ?thesis using r(1) by (simp add: no_send_after_close_noclose[OF nc])
  qed
  with eq show ?thesis by blast
qed


lemma cb_receive_eof:
  assumes "revents AND EV_READ \<noteq> 0" and "buffer_room (buffer (fired b con)) \<noteq> 0"
    and "recv_outcome env = Inr [] \<or> (\<exists>e. recv_outcome env = Inl e \<and> \<not> IS_TEMPORARY_SOCKERR e)"
  shows "cb_receive env b revents con =
     bind_err (close_socket b (con\<lparr>syscalls := syscalls con @ [Sys_recv (fd (watcher (fired b con)))]\<rparr>))
       (\<lambda>c. Inr (c, 0))"
  using assms
  by (cases b) (auto simp: cb_receive_def fired_def buffer_recv_def Let_def)

lemma cb_transmit_zero: "cb_transmit env b 0 con = Inr con"
  by (simp add: cb_transmit_def)

lemma close_socket_total:
  assumes "if b then client_socket_open con else server_socket_open con"
  shows "\<exists>c1. close_socket b con = Inr c1 \<and> \<not> sock_open (fired b c1) \<and>
           syscalls c1 = syscalls con @ [Sys_close (fd (watcher (fired b con)))] \<and>
           (if b then state c1 = CLOSED \<or> state c1 = CLIENT_CLOSED
            else state c1 = CLOSED \<or> state c1 = SERVER_CLOSED)"
  using assms
  by (cases b)
     (auto simp: close_socket_def close_client_socket_def close_server_socket_def fired_def
      client_socket_open_def server_socket_open_def)

lemma cb_state_after_close:
  assumes "if b then state c1 = CLOSED \<or> state c1 = CLIENT_CLOSED
           else state c1 = CLOSED \<or> state c1 = SERVER_CLOSED"
  shows "\<exists>c3. cb_state env b c1 = Inr c3 \<and>
           (state c3 = CLOSED \<or>
            (state c3 = CLIENT_CLOSED \<and> buffer_len (buffer (client c3)) \<noteq> 0) \<or>
            (state c3 = SERVER_CLOSED \<and> buffer_len (buffer (server c3)) \<noteq> 0)) \<and>
           sock_open (fired b c3) = sock_open (fired b c1)"
  using assms
  by (cases b)
     (auto simp: cb_state_def bind_err_def close_client_socket_def close_server_socket_def
        fired_def)

lemma interest_nonzero: "interest w \<noteq> 0 \<Longrightarrow> ev_is_active w \<and> events w \<noteq> 0"
  by (simp add: interest_def split: if_splits)

lemma desired_events_write: "buffer_len ob \<noteq> 0 \<Longrightarrow> desired_events i ob \<noteq> 0"
  by (simp add: desired_events_def)

lemma cb_asserts_half_closed:
  assumes "conn_inv c3"
    and "(state c3 = CLIENT_CLOSED \<and> buffer_len (buffer (client c3)) \<noteq> 0) \<or>
         (state c3 = SERVER_CLOSED \<and> buffer_len (buffer (server c3)) \<noteq> 0)"
  shows "cb_asserts (cb_reactivate c3) = Inr (cb_reactivate c3)"
proof -
  from cb_reactivate_inv[OF assms(1)] have
    a: "ev_is_active (watcher (client (cb_reactivate c3))) \<longrightarrow> client_socket_open c3"
       "ev_is_active (watcher (server (cb_reactivate c3))) \<longrightarrow> server_socket_open c3"
    by (simp_all add: conn_inv_def)
  have "(ev_is_active (watcher (client (cb_reactivate c3))) \<and>
           events (watcher (client (cb_reactivate c3))) \<noteq> 0) \<or>
        (ev_is_active (watcher (server (cb_reactivate c3))) \<and>
           events (watcher (server (cb_reactivate c3))) \<noteq> 0)"
    using assms(2)
  proof
    assume h: "state c3 = CLIENT_CLOSED \<and> buffer_len (buffer (client c3)) \<noteq> 0"
    then have "interest (watcher (server (cb_reactivate c3))) \<noteq> 0"
      by (simp add: cb_reactivate_watchers server_socket_open_def reactivate_watcher_interest
          desired_events_write)
    then show ?thesis by (blast dest: interest_nonzero)
  next
    assume h: "state c3 = SERVER_CLOSED \<and> buffer_len (buffer (server c3)) \<noteq> 0"
    then have "interest (watcher (client (cb_reactivate c3))) \<noteq> 0"
      by (simp add: cb_reactivate_watchers client_socket_open_def reactivate_watcher_interest
          desired_events_write)
    then show ?thesis by (blast dest: interest_nonzero)
  qed
  with a show ?thesis by (auto simp: cb_asserts_def Let_def)
qed


lemmas cb_defs = connection_cb_def cb_steps_def cb_receive_def cb_transmit_def cb_state_def
  cb_reactivate_def cb_asserts_def reactivate_watcher_def bind_err_def close_socket_def
  close_client_socket_def close_server_socket_def parse_client_request_def
  resolve_server_address_def initiate_server_connect_def buffer_room_def buffer_len_def
  buffer_recv_def buffer_send_def buffer_peek_def client_socket_open_def server_socket_open_def
  ev_is_active_def ev_io_stop_def ev_io_start_def ev_io_set_def ev_io_init_def
  TAILQ_INSERT_HEAD_def TAILQ_REMOVE_def free_connection_def Let_def IS_TEMPORARY_SOCKERR_def

lemmas ex_defs = ex_env_def ex_parser_def ex_listener_ok_def zero_watcher_def ex_sockaddr_def
  zero_sockaddr_def ex_world_def ex_connected_def ex_relaying_def ex_half_closed_def
  ex_closed_early_def ex_con_def ex_accept_env_def ex_client_closed_def

lemma ex_run_accept:
  "accept_connection ex_listener_ok ex_accept_env init_connections =
     ex_world (ex_con\<lparr>listener := Some ex_listener_ok\<rparr>)"
  by (simp add: accept_connection_def new_connection_def init_connections_def cb_defs ex_defs)

lemma ex_run_1:
  "connection_cb (ex_env (Inr ''abc'')) 0 True EV_READ
     (ex_world (ex_con\<lparr>listener := Some ex_listener_ok\<rparr>)) = Inr (ex_world ex_connected)"
  by (simp add: cb_defs ex_defs)

lemma ex_run_2:
  "connection_cb (ex_env (Inr ''x'')) 0 False EV_READ (ex_world ex_connected) =
     Inr (ex_world ex_relaying)"
  by (simp add: cb_defs ex_defs)

lemma ex_run_3:
  "connection_cb (ex_env (Inr [])) 0 False EV_READ (ex_world ex_relaying) =
     Inr (ex_world ex_half_closed)"
  by (simp add: cb_defs ex_defs)

lemma ex_run_4:
  "connection_cb (ex_env (Inr [])) 0 True EV_READ (ex_world ex_half_closed) =
     Inr \<lparr>connections = [], heap = Map.empty, freed = [ex_closed_early]\<rparr>"
  by (simp add: cb_defs ex_defs)

lemma ex_half_closed_reachable: "reachable (ex_world ex_half_closed)"
proof -
  have h: "heap (ex_world con) 0 = Some con" for con by (simp add: ex_world_def)
  have "reachable (ex_world (ex_con\<lparr>listener := Some ex_listener_ok\<rparr>))"
    unfolding ex_run_accept[symmetric]
    by (rule reach_accept[OF reach_init]) (simp add: init_connections_def)
  then have "reachable (ex_world ex_connected)"
    by (rule reach_cb[OF _ h _ ex_run_1]) (simp add: ex_con_def ev_is_active_def)
  then have "reachable (ex_world ex_relaying)"
    by (rule reach_cb[OF _ h _ ex_run_2]) (simp add: ex_connected_def ev_is_active_def)
  then show ?thesis
    by (rule reach_cb[OF _ h _ ex_run_3])
       (simp add: ex_connected_def ex_relaying_def ev_is_active_def)
qed

lemma ex_run_3c:
  "connection_cb (ex_env (Inr [])) 0 True EV_READ (ex_world ex_relaying) =
     Inr (ex_world ex_client_closed)"
  by (simp add: cb_defs ex_defs)

lemma ex_client_closed_reachable: "reachable (ex_world ex_client_closed)"
proof -
  have h: "heap (ex_world con) 0 = Some con" for con by (simp add: ex_world_def)
  have "reachable (ex_world (ex_con\<lparr>listener := Some ex_listener_ok\<rparr>))"
    unfolding ex_run_accept[symmetric]
    by (rule reach_accept[OF reach_init]) (simp add: init_connections_def)
  then have "reachable (ex_world ex_connected)"
    by (rule reach_cb[OF _ h _ ex_run_1]) (simp add: ex_con_def ev_is_active_def)
  then have "reachable (ex_world ex_relaying)"
    by (rule reach_cb[OF _ h _ ex_run_2]) (simp add: ex_connected_def ev_is_active_def)
  then show ?thesis
    by (rule reach_cb[OF _ h _ ex_run_3c])
       (simp add: ex_connected_def ex_relaying_def ev_is_active_def)
qed

lemma of_char_nul: "of_char c = (0::nat) \<longleftrightarrow> c = CHR 0x00"
proof -
  have "of_char c = (of_char CHR 0x00 :: nat) \<longleftrightarrow> c = CHR 0x00" by (rule of_char_eq_iff)
  then show ?thesis by simp
qed

lemma tolower_nul: "of_char (tolower c) = (0::nat) \<longleftrightarrow> c = CHR 0x00"
proof (cases "65 \<le> (of_char c :: nat) \<and> (of_char c :: nat) \<le> 90")
  case True
  then have t: "tolower c = char_of (of_char c + 32 :: nat)" by (simp add: tolower_def Let_def)
  from True have "(of_char c + 32) mod 256 = (of_char c + 32 :: nat)" by simp
  then have "of_char (tolower c) = (of_char c + 32 :: nat)" unfolding t by (simp only: of_char_of)
  moreover from True have "c \<noteq> CHR 0x00" by auto
  ultimately show ?thesis by simp
next
  case False
  then have "tolower c = c" by (auto simp: tolower_def Let_def)
  then show ?thesis by (simp add: of_char_nul)
qed

lemma strcasecmp_zero:
  "CHR 0x00 \<notin> set a \<Longrightarrow> CHR 0x00 \<notin> set b \<Longrightarrow>
   strcasecmp a b = 0 \<longleftrightarrow> map tolower a = map tolower b"
proof (induction a b rule: strcasecmp.induct)
  case 1
  show ?case by simp
next
  case (2 b bs)
  then show ?case using tolower_nul[of b] by auto
next
  case (3 a as)
  then show ?case using tolower_nul[of a] by auto
next
  case (4 a as b bs)
  then show ?case by auto
qed


section \<open>The claims\<close>

text \<open>
  C1. For every Connection in the registry of a reachable state of the process, that is
  at every point between two callbacks of the reactor, the client half holds an open
  descriptor if and only if the state is one of ACCEPTED, PARSED, RESOLVED, CONNECTED,
  SERVER_CLOSED, and the server half holds one if and only if the state is CONNECTED or
  CLIENT_CLOSED. The two predicates of the code read nothing but the state tag, and
  accepting, every callback and the shutdown preserve the agreement.
\<close>

theorem C1_sockets_follow_state:
  assumes "reachable w" and "heap w c = Some con"
  shows "(sock_open (client con) \<longleftrightarrow>
            state con \<in> {ACCEPTED, PARSED, RESOLVED, CONNECTED, SERVER_CLOSED}) \<and>
         (sock_open (server con) \<longleftrightarrow> state con \<in> {CONNECTED, CLIENT_CLOSED}) \<and>
         (client_socket_open con \<longleftrightarrow>
            state con \<in> {ACCEPTED, PARSED, RESOLVED, CONNECTED, SERVER_CLOSED}) \<and>
         (server_socket_open con \<longleftrightarrow> state con \<in> {CONNECTED, CLIENT_CLOSED})"
proof -
  from assms have "conn_inv con" by (auto dest: reachable_inv simp: world_inv_def)
  then show ?thesis
    by (auto simp: conn_inv_def client_socket_open_def server_socket_open_def)
qed

theorem C1_witness:
  "reachable ex_accepted \<and> (\<exists>con. heap ex_accepted 0 = Some con \<and>
     state con = ACCEPTED \<and> sock_open (client con) \<and> \<not> sock_open (server con))"
proof -
  obtain con where h: "heap ex_accepted 0 = Some con" and st: "state con = ACCEPTED"
    by (simp add: ex_accepted_simp ex_con_def)
  from C1_sockets_follow_state[OF ex_accepted_reachable h] st
  have "sock_open (client con) \<and> \<not> sock_open (server con)" by simp
  with h st ex_accepted_reachable show ?thesis by blast
qed

text \<open>
  C7. When the callback on the Connection at \<open>c\<close> brings it to CLOSED, the callback
  returns with the Connection removed from the registry and freed. Otherwise, whenever the
  callback returns, the Connection is at the head of the registry and the others keep
  their order. A new Connection is inserted at the head. So the registry is ordered
  most recently active first.
\<close>

theorem C7_registry_most_recent_first:
  assumes "reachable w" and "heap w c = Some con"
    and "cb_steps env is_client revents con = Inr con3"
  shows "(state con3 = CLOSED \<longrightarrow>
            (\<exists>w'. connection_cb env c is_client revents w = Inr w' \<and>
               c \<notin> set (connections w') \<and> connections w' = remove1 c (connections w) \<and>
               heap w' c = None \<and> freed w' = con3 # freed w)) \<and>
         (state con3 \<noteq> CLOSED \<longrightarrow>
            (\<forall>w'. connection_cb env c is_client revents w = Inr w' \<longrightarrow>
               connections w' = c # remove1 c (connections w) \<and>
               c \<notin> set (remove1 c (connections w)) \<and>
               (\<exists>con4. heap w' c = Some con4 \<and> state con4 = state con3))) \<and>
         (\<forall>l aenv c' con'. new_connection aenv = Some (c', con') \<and> 0 \<le> accept_result aenv \<longrightarrow>
            connections (accept_connection l aenv w) = c' # connections w)"
proof -
  from assms(1) have d: "distinct (connections w)" by (auto dest: reachable_inv simp: world_inv_def)
  have closed: "\<exists>w'. connection_cb env c is_client revents w = Inr w' \<and>
               c \<notin> set (connections w') \<and> connections w' = remove1 c (connections w) \<and>
               heap w' c = None \<and> freed w' = con3 # freed w" if "state con3 = CLOSED"
    using connection_cb_closed[OF assms(2,3) that] d
    by (simp add: free_connection_def TAILQ_REMOVE_def)
  have moved: "connections w' = c # remove1 c (connections w) \<and>
               c \<notin> set (remove1 c (connections w)) \<and>
               (\<exists>con4. heap w' c = Some con4 \<and> state con4 = state con3)"
    if "state con3 \<noteq> CLOSED" and "connection_cb env c is_client revents w = Inr w'" for w'
    using that(2) d unfolding connection_cb_open[OF assms(2,3) that(1)]
    by (auto simp: bind_err_Inr TAILQ_INSERT_HEAD_def TAILQ_REMOVE_def dest!: cb_asserts_Inr)
  have acc: "connections (accept_connection l aenv w) = c' # connections w"
    if "new_connection aenv = Some (c', con')" and "0 \<le> accept_result aenv" for l aenv c' con'
    using that by (simp add: accept_connection_def Let_def TAILQ_INSERT_HEAD_def)
  from closed moved acc show ?thesis by blast
qed

theorem C7_witness:
  "(\<exists>w'. connection_cb (ex_env (Inr [])) 0 True EV_READ ex_accepted = Inr w' \<and>
          connections w' = [] \<and> heap w' 0 = None) \<and>
   (\<exists>w'. connection_cb (ex_env (Inr ''abc'')) 0 True EV_READ ex_accepted = Inr w' \<and>
          connections w' = [0]) \<and>
   connections (accept_connection ex_listener (ex_accept_env\<lparr>calloc_result := Some 1\<rparr>)
     ex_accepted) = [1, 0]"
proof -
  note a = C7_registry_most_recent_first[OF ex_accepted_reachable ex_accepted_heap(1) ex_steps_eof]
  note b = C7_registry_most_recent_first[OF ex_accepted_reachable ex_accepted_heap(1) ex_steps_data]
  have n: "new_connection (ex_accept_env\<lparr>calloc_result := Some 1\<rparr>) \<noteq> None"
    by (simp add: new_connection_def ex_accept_env_def)
  have "\<exists>w'. connection_cb (ex_env (Inr [])) 0 True EV_READ ex_accepted = Inr w' \<and>
          connections w' = [] \<and> heap w' 0 = None"
    using a by (auto simp: ex_accepted_heap)
  moreover have "\<exists>w'. connection_cb (ex_env (Inr ''abc'')) 0 True EV_READ ex_accepted = Inr w' \<and>
          connections w' = [0]"
    using b ex_cb_data by (auto simp: ex_accepted_heap ex_con_def)
  moreover have "connections (accept_connection ex_listener (ex_accept_env\<lparr>calloc_result := Some 1\<rparr>)
     ex_accepted) = [1, 0]"
    using a n by (auto simp: ex_accepted_heap new_connection_def ex_accept_env_def split: option.splits)
  ultimately show ?thesis by blast
qed

text \<open>
  C8. In every reachable state \<^verbatim>\<open>free_connections\<close> returns with an empty registry and
  nothing allocated; it has freed the Connections of the registry in queue order, each
  brought to CLOSED by \<^verbatim>\<open>close_connection\<close>, which closes the server half first if it
  is open and then the client half if it is open. \<^verbatim>\<open>close_connection\<close> fails its first
  assertion exactly when the state is NEW.
\<close>

theorem C8_free_connections:
  assumes "reachable w"
  shows "(\<exists>w' cons. free_connections w = Inr w' \<and> connections w' = [] \<and>
            heap w' = Map.empty \<and> freed w' = rev cons @ freed w \<and>
            list_all2 (\<lambda>c con'. \<exists>con. heap w c = Some con \<and> force_closed con con')
              (connections w) cons) \<and>
         (\<forall>con. close_connection con = Inl (AssertFailed 433) \<longleftrightarrow> state con = NEW)"
  using free_connections_all[OF reachable_inv[OF assms]] close_connection_NEW by blast

theorem C8_witness:
  "\<exists>w' con'. free_connections ex_accepted = Inr w' \<and> connections w' = [] \<and>
     freed w' = [con'] \<and> state con' = CLOSED \<and> syscalls con' = [Sys_accept 5, Sys_close 5]"
proof -
  from C8_free_connections[OF ex_accepted_reachable] obtain w' cons where
    r: "free_connections ex_accepted = Inr w'" "connections w' = []"
       "freed w' = rev cons @ freed ex_accepted"
       "list_all2 (\<lambda>c con'. \<exists>con. heap ex_accepted c = Some con \<and> force_closed con con')
          (connections ex_accepted) cons"
    by blast
  from r(4) obtain con' where c: "cons = [con']" "force_closed ex_con con'"
    by (auto simp: ex_accepted_heap list_all2_Cons1)
  from c(2) have "state con' = CLOSED \<and> syscalls con' = [Sys_accept 5, Sys_close 5]"
    by (simp add: force_closed_def ex_con_def client_socket_open_def server_socket_open_def)
  with r c show ?thesis by (simp add: ex_accepted_heap)
qed

text \<open>
  C3. \<^verbatim>\<open>reactivate_watcher\<close> leaves the watcher polling for exactly READ if the inbound
  buffer has room together with WRITE if the outbound buffer has pending bytes: it is
  stopped (or stays stopped) when that set is empty, restarted with the new set when it was
  active with a different one, and started with it when it was inactive. Hence whenever a
  callback returns with the Connection still allocated, the watcher of each half whose
  socket is open polls for exactly that set, taken over the buffers as the callback leaves
  them.
\<close>

theorem C3_watcher_interest:
  "interest (reactivate_watcher w0 i ob) = desired_events i ob \<and>
   fd (reactivate_watcher w0 i ob) = fd w0 \<and>
   (desired_events i ob = 0 \<longrightarrow> \<not> ev_is_active (reactivate_watcher w0 i ob)) \<and>
   (ev_is_active w0 \<and> desired_events i ob \<noteq> 0 \<and> desired_events i ob \<noteq> events w0 \<longrightarrow>
      reactivate_watcher w0 i ob =
        ev_io_start (ev_io_set (ev_io_stop w0) (fd w0) (desired_events i ob))) \<and>
   (\<not> ev_is_active w0 \<and> desired_events i ob \<noteq> 0 \<longrightarrow>
      reactivate_watcher w0 i ob = ev_io_start (ev_io_set w0 (fd w0) (desired_events i ob))) \<and>
   (connection_cb env c is_client revents w = Inr w' \<and> heap w' c = Some con' \<longrightarrow>
      (client_socket_open con' \<longrightarrow>
         interest (watcher (client con')) =
           desired_events (buffer (client con')) (buffer (server con'))) \<and>
      (server_socket_open con' \<longrightarrow>
         interest (watcher (server con')) =
           desired_events (buffer (server con')) (buffer (client con'))))"
proof -
  have cb: "(client_socket_open con' \<longrightarrow>
         interest (watcher (client con')) =
           desired_events (buffer (client con')) (buffer (server con'))) \<and>
      (server_socket_open con' \<longrightarrow>
         interest (watcher (server con')) =
           desired_events (buffer (server con')) (buffer (client con')))"
    if a: "connection_cb env c is_client revents w = Inr w'" and b: "heap w' c = Some con'"
  proof -
    from connection_cb_result[OF a] obtain con con3 where
      r: "if state con3 = CLOSED then w' = free_connection c con3 (TAILQ_REMOVE c w)
          else cb_asserts (cb_reactivate con3) = Inr (cb_reactivate con3) \<and>
           w' = TAILQ_INSERT_HEAD c (TAILQ_REMOVE c (w\<lparr>heap := (heap w)(c \<mapsto> cb_reactivate con3)\<rparr>))"
      by blast
    have "con' = cb_reactivate con3"
      using r b by (auto simp: free_connection_def TAILQ_REMOVE_def TAILQ_INSERT_HEAD_def
          split: if_splits)
    then show ?thesis
      by (simp add: cb_reactivate_watchers reactivate_watcher_interest)
  qed
  show ?thesis
    using reactivate_watcher_interest reactivate_watcher_cases(1,2,3,5) cb
    by blast
qed


theorem C3_witness:
  "connection_cb (ex_env (Inr ''abc'')) 0 True EV_READ ex_accepted =
     Inr \<lparr>connections = [0], heap = [0 \<mapsto> ex_con_data], freed = []\<rparr> \<and>
   client_socket_open ex_con_data \<and> interest (watcher (client ex_con_data)) = EV_READ"
proof -
  have o: "client_socket_open ex_con_data"
    by (simp add: client_socket_open_def ex_con_data_def ex_con_def)
  have "interest (watcher (client ex_con_data)) =
          desired_events (buffer (client ex_con_data)) (buffer (server ex_con_data))"
    using C3_watcher_interest[of _ _ _ "ex_env (Inr ''abc'')" 0 True EV_READ ex_accepted
        "\<lparr>connections = [0], heap = [0 \<mapsto> ex_con_data], freed = []\<rparr>" ex_con_data]
      ex_cb_data_result o
    by simp
  also have "\<dots> = EV_READ"
    by (simp add: desired_events_def ex_con_data_def ex_con_def buffer_room_def buffer_len_def)
  finally show ?thesis using ex_cb_data_result o by simp
qed

text \<open>
  C4. For a Connection in state ACCEPTED whose listener's parser returns \<open>result\<close> on the
  peeked bytes: on -1 \<^verbatim>\<open>parse_client_request\<close> returns the Connection unchanged (still
  ACCEPTED). On -2 or less without a fallback address it closes the client socket, which
  ends in CLOSED. On -2 or less with a fallback address it does what it does on success:
  it stores the parser's hostname out-parameter and moves to PARSED. With the address
  lookup as the spec describes it, and no table entry matching that hostname (none does
  when the parser left it NULL), the lookup returns the listener's fallback address, and
  \<^verbatim>\<open>resolve_server_address\<close> copies a fallback that is a socket address as the server
  address and moves to RESOLVED, and closes the client for a fallback that is a hostname,
  as it does for any backend. On a result of zero or more \<^verbatim>\<open>parse_client_request\<close> stores
  the hostname and moves to PARSED.
\<close>

theorem C4_parse_client_request:
  assumes "state con = ACCEPTED" and "listener con = Some l"
    and "parse_packet l (buffer_peek (buffer (client con)) 1460) = (result, hn)"
  shows "(result = - 1 \<longrightarrow> parse_client_request con = Inr con) \<and>
         (result \<le> - 2 \<and> fallback_address l = None \<longrightarrow>
            (\<exists>con'. parse_client_request con = Inr con' \<and>
               close_client_socket con = Inr con' \<and> state con' = CLOSED \<and>
               \<not> sock_open (client con') \<and> \<not> ev_is_active (watcher (client con')) \<and>
               syscalls con' = syscalls con @ [Sys_close (fd (watcher (client con)))])) \<and>
         (result \<le> - 2 \<and> fallback_address l = Some a \<longrightarrow>
            parse_client_request con = Inr (con\<lparr>hostname := hn, state := PARSED\<rparr>) \<and>
            (\<forall>env tbl.
               listener_lookup_server_address env = listener_lookup_server_address_spec tbl \<and>
               table_lookup tbl hn = None \<longrightarrow>
                 listener_lookup_server_address env l hn = a \<and>
                 (\<forall>sa. a = SOCKADDR sa \<and> sa_len sa \<le> 128 \<longrightarrow>
                    (\<exists>con'. resolve_server_address env (con\<lparr>hostname := hn, state := PARSED\<rparr>) =
                         Inr con' \<and> state con' = RESOLVED \<and> addr (server con') = sa \<and>
                         addr_len (server con') = sa_len sa \<and> client con' = client con)) \<and>
                 (\<forall>h. a = HOSTNAME h \<longrightarrow>
                    (\<exists>con'. resolve_server_address env (con\<lparr>hostname := hn, state := PARSED\<rparr>) =
                         Inr con' \<and> state con' = CLOSED \<and> \<not> sock_open (client con'))))) \<and>
         table_lookup tbx None = None \<and>
         (0 \<le> result \<longrightarrow>
            parse_client_request con = Inr (con\<lparr>hostname := hn, state := PARSED\<rparr>))"
proof -
  have a: "parse_client_request con = Inr con" if "result = - 1"
    using assms that by (simp add: parse_client_request_def Let_def)
  have b: "parse_client_request con = close_client_socket con"
    if "result \<le> - 2" "fallback_address l = None"
    using assms that by (auto simp: parse_client_request_def Let_def)
  have b': "\<exists>con'. close_client_socket con = Inr con' \<and> state con' = CLOSED \<and>
               \<not> sock_open (client con') \<and> \<not> ev_is_active (watcher (client con')) \<and>
               syscalls con' = syscalls con @ [Sys_close (fd (watcher (client con)))]"
    using assms(1) by (simp add: close_client_socket_def ev_is_active_def ev_io_stop_def)
  have c: "parse_client_request con = Inr (con\<lparr>hostname := hn, state := PARSED\<rparr>)"
    if "result \<le> - 2" "fallback_address l = Some a"
    using assms that by (auto simp: parse_client_request_def Let_def)
  have lk: "listener_lookup_server_address env l hn = a"
    if "fallback_address l = Some a"
       "listener_lookup_server_address env = listener_lookup_server_address_spec tbl"
       "table_lookup tbl hn = None" for env :: Env and tbl
    using that by (simp add: listener_lookup_server_address_spec_def)
  have rs: "\<exists>con'. resolve_server_address env (con\<lparr>hostname := hn, state := PARSED\<rparr>) =
                    Inr con' \<and> state con' = RESOLVED \<and> addr (server con') = sa \<and>
                    addr_len (server con') = sa_len sa \<and> client con' = client con"
    if "listener_lookup_server_address env l hn = SOCKADDR sa" "sa_len sa \<le> 128" for env sa
    using assms(2) that by (simp add: resolve_server_address_def)
  have rh: "\<exists>con'. resolve_server_address env (con\<lparr>hostname := hn, state := PARSED\<rparr>) =
                    Inr con' \<and> state con' = CLOSED \<and> \<not> sock_open (client con')"
    if "listener_lookup_server_address env l hn = HOSTNAME h" for env h
    using assms(2) that by (simp add: resolve_server_address_def close_client_socket_def)
  have fb: "\<forall>env tbl.
               listener_lookup_server_address env = listener_lookup_server_address_spec tbl \<and>
               table_lookup tbl hn = None \<longrightarrow>
                 listener_lookup_server_address env l hn = a \<and>
                 (\<forall>sa. a = SOCKADDR sa \<and> sa_len sa \<le> 128 \<longrightarrow>
                    (\<exists>con'. resolve_server_address env (con\<lparr>hostname := hn, state := PARSED\<rparr>) =
                         Inr con' \<and> state con' = RESOLVED \<and> addr (server con') = sa \<and>
                         addr_len (server con') = sa_len sa \<and> client con' = client con)) \<and>
                 (\<forall>h. a = HOSTNAME h \<longrightarrow>
                    (\<exists>con'. resolve_server_address env (con\<lparr>hostname := hn, state := PARSED\<rparr>) =
                         Inr con' \<and> state con' = CLOSED \<and> \<not> sock_open (client con')))"
    if f: "fallback_address l = Some a"
  proof (intro allI impI)
    fix env :: Env and tbl :: Table
    assume h: "listener_lookup_server_address env = listener_lookup_server_address_spec tbl \<and>
               table_lookup tbl hn = None"
    then have e: "listener_lookup_server_address env l hn = a" using lk[OF f] by blast
    show "listener_lookup_server_address env l hn = a \<and>
                 (\<forall>sa. a = SOCKADDR sa \<and> sa_len sa \<le> 128 \<longrightarrow>
                    (\<exists>con'. resolve_server_address env (con\<lparr>hostname := hn, state := PARSED\<rparr>) =
                         Inr con' \<and> state con' = RESOLVED \<and> addr (server con') = sa \<and>
                         addr_len (server con') = sa_len sa \<and> client con' = client con)) \<and>
                 (\<forall>h. a = HOSTNAME h \<longrightarrow>
                    (\<exists>con'. resolve_server_address env (con\<lparr>hostname := hn, state := PARSED\<rparr>) =
                         Inr con' \<and> state con' = CLOSED \<and> \<not> sock_open (client con')))"
      using e rs[of env] rh[of env] by blast
  qed
  have t: "table_lookup tbx None = None" by (simp add: table_lookup_def)
  have d: "parse_client_request con = Inr (con\<lparr>hostname := hn, state := PARSED\<rparr>)"
    if "0 \<le> result"
    using assms that by (auto simp: parse_client_request_def Let_def)
  from a b b' have ab: "(result = - 1 \<longrightarrow> parse_client_request con = Inr con) \<and>
         (result \<le> - 2 \<and> fallback_address l = None \<longrightarrow>
            (\<exists>con'. parse_client_request con = Inr con' \<and>
               close_client_socket con = Inr con' \<and> state con' = CLOSED \<and>
               \<not> sock_open (client con') \<and> \<not> ev_is_active (watcher (client con')) \<and>
               syscalls con' = syscalls con @ [Sys_close (fd (watcher (client con)))]))"
    by auto
  from ab c fb t d show ?thesis by blast
qed


theorem C4_witness:
  "parse_client_request ex_con = Inr ex_con \<and>
   (\<exists>con'. parse_client_request (ex_con_with (\<lambda>bs. (- 2, None)) None) = Inr con' \<and>
      state con' = CLOSED) \<and>
   (\<exists>con'. parse_client_request (ex_con_with (\<lambda>bs. (- 3, None)) None) = Inr con' \<and>
      state con' = CLOSED) \<and>
   parse_client_request (ex_con_with (\<lambda>bs. (- 3, None)) (Some (SOCKADDR ex_sockaddr))) =
     Inr (ex_con_with (\<lambda>bs. (- 3, None)) (Some (SOCKADDR ex_sockaddr))
           \<lparr>hostname := None, state := PARSED\<rparr>) \<and>
   (\<exists>con'. resolve_server_address
        ((ex_env (Inr []))\<lparr>listener_lookup_server_address :=
           listener_lookup_server_address_spec ex_table\<rparr>)
        (ex_con_with (\<lambda>bs. (- 3, None)) (Some (SOCKADDR ex_sockaddr))
           \<lparr>hostname := None, state := PARSED\<rparr>) = Inr con' \<and>
      state con' = RESOLVED \<and> addr (server con') = ex_sockaddr) \<and>
   (\<exists>con'. resolve_server_address
        ((ex_env (Inr []))\<lparr>listener_lookup_server_address :=
           listener_lookup_server_address_spec ex_table\<rparr>)
        (ex_con_with (\<lambda>bs. (- 2, None)) (Some (HOSTNAME ''fallback.test''))
           \<lparr>hostname := None, state := PARSED\<rparr>) = Inr con' \<and>
      state con' = CLOSED) \<and>
   parse_client_request (ex_con_with (ex_parser 0) None) =
     Inr (ex_con_with (ex_parser 0) None\<lparr>hostname := Some ''example.com'', state := PARSED\<rparr>)"
proof -
  have st: "state (ex_con_with p fb) = ACCEPTED"
    and li: "listener (ex_con_with p fb) = Some \<lparr>parse_packet = p, fallback_address = fb\<rparr>"
    for p fb
    by (simp_all add: ex_con_with_def ex_con_def)
  have pp: "parse_packet \<lparr>parse_packet = \<lambda>bs. (r, None), fallback_address = fb\<rparr>
      (buffer_peek (buffer (client (ex_con_with (\<lambda>bs. (r, None)) fb))) 1460) = (r, None)"
    for r fb
    by simp
  let ?env = "(ex_env (Inr []))\<lparr>listener_lookup_server_address :=
           listener_lookup_server_address_spec ex_table\<rparr>"
  have le: "listener_lookup_server_address ?env = listener_lookup_server_address_spec ex_table"
    "table_lookup ex_table None = None"
    by (simp_all add: table_lookup_def)
  have sl: "sa_len ex_sockaddr \<le> 128" by (simp add: ex_sockaddr_def)
  have "parse_client_request ex_con = Inr ex_con"
    using C4_parse_client_request[where con = ex_con and l = ex_listener and result = "- 1"
        and hn = None and a = "HOSTNAME []" and tbx = ex_table]
    by (simp add: ex_con_def ex_listener_def ex_parser_def buffer_peek_def)
  moreover have "\<exists>con'. parse_client_request (ex_con_with (\<lambda>bs. (- 2, None)) None) = Inr con' \<and>
      state con' = CLOSED"
    using C4_parse_client_request[OF st li pp, where a = "HOSTNAME []" and tbx = ex_table,
        of "- 2" None]
    by auto
  moreover have "\<exists>con'. parse_client_request (ex_con_with (\<lambda>bs. (- 3, None)) None) = Inr con' \<and>
      state con' = CLOSED"
    using C4_parse_client_request[OF st li pp, where a = "HOSTNAME []" and tbx = ex_table,
        of "- 3" None]
    by auto
  moreover have "parse_client_request (ex_con_with (\<lambda>bs. (- 3, None)) (Some (SOCKADDR ex_sockaddr))) =
     Inr (ex_con_with (\<lambda>bs. (- 3, None)) (Some (SOCKADDR ex_sockaddr))
           \<lparr>hostname := None, state := PARSED\<rparr>) \<and>
   (\<exists>con'. resolve_server_address ?env
        (ex_con_with (\<lambda>bs. (- 3, None)) (Some (SOCKADDR ex_sockaddr))
           \<lparr>hostname := None, state := PARSED\<rparr>) = Inr con' \<and>
      state con' = RESOLVED \<and> addr (server con') = ex_sockaddr)"
  proof -
    note t = C4_parse_client_request[OF st li pp, where a = "SOCKADDR ex_sockaddr"
        and tbx = ex_table, of "- 3" "Some (SOCKADDR ex_sockaddr)"]
    have r: "(- 3 :: int) \<le> - 2 \<and>
      fallback_address \<lparr>parse_packet = \<lambda>bs. (- 3, None),
        fallback_address = Some (SOCKADDR ex_sockaddr)\<rparr> = Some (SOCKADDR ex_sockaddr)"
      by simp
    from t r le sl show ?thesis by blast
  qed
  moreover have "\<exists>con'. resolve_server_address ?env
        (ex_con_with (\<lambda>bs. (- 2, None)) (Some (HOSTNAME ''fallback.test''))
           \<lparr>hostname := None, state := PARSED\<rparr>) = Inr con' \<and> state con' = CLOSED"
  proof -
    note t = C4_parse_client_request[OF st li pp, where a = "HOSTNAME ''fallback.test''"
        and tbx = ex_table, of "- 2" "Some (HOSTNAME ''fallback.test'')"]
    have r: "(- 2 :: int) \<le> - 2 \<and>
      fallback_address \<lparr>parse_packet = \<lambda>bs. (- 2, None),
        fallback_address = Some (HOSTNAME ''fallback.test'')\<rparr> =
      Some (HOSTNAME ''fallback.test'')"
      by simp
    from t r le show ?thesis by blast
  qed
  moreover have "parse_client_request (ex_con_with (ex_parser 0) None) =
     Inr (ex_con_with (ex_parser 0) None\<lparr>hostname := Some ''example.com'', state := PARSED\<rparr>)"
    using C4_parse_client_request[where con = "ex_con_with (ex_parser 0) None"
        and l = "\<lparr>parse_packet = ex_parser 0, fallback_address = None\<rparr>"
        and result = 0 and hn = "Some ''example.com''" and a = "HOSTNAME []"
        and tbx = ex_table] st li
    by (simp add: ex_parser_def)
  ultimately show ?thesis by blast
qed

text \<open>
  C5. For a Connection in state RESOLVED for which \<^verbatim>\<open>socket\<close> returned a descriptor:
  when \<^verbatim>\<open>connect\<close> fails with an errno other than EINPROGRESS,
  \<^verbatim>\<open>initiate_server_connect\<close> closes the new descriptor and moves to SERVER_CLOSED, leaving
  both halves as they were; otherwise (success or EINPROGRESS) it moves to CONNECTED with
  the server watcher initialised on the new descriptor for WRITE and started.
\<close>

theorem C5_initiate_server_connect:
  assumes "state con = RESOLVED" and "0 \<le> socket_result env"
    and "connect_result env = (result, errno)"
  shows "(result < 0 \<and> errno \<noteq> EINPROGRESS \<longrightarrow>
            (\<exists>con'. initiate_server_connect env con = Inr con' \<and> state con' = SERVER_CLOSED \<and>
               syscalls con' = syscalls con @ [Sys_socket (socket_result env),
                 Sys_connect (socket_result env), Sys_close (socket_result env)] \<and>
               server con' = server con \<and> client con' = client con)) \<and>
         (0 \<le> result \<or> errno = EINPROGRESS \<longrightarrow>
            (\<exists>con'. initiate_server_connect env con = Inr con' \<and> state con' = CONNECTED \<and>
               watcher (server con') =
                 \<lparr>active = True, fd = socket_result env, events = EV_WRITE\<rparr> \<and>
               sock_open (server con') \<and> client con' = client con \<and>
               syscalls con' = syscalls con @ [Sys_socket (socket_result env),
                 Sys_connect (socket_result env)]))"
  using assms
  by (auto simp: initiate_server_connect_def Let_def ev_io_init_def ev_io_start_def)


theorem C5_witness:
  "(\<exists>con'. initiate_server_connect ((ex_env (Inr []))\<lparr>connect_result := (- 1, 111)\<rparr>)
       (ex_con\<lparr>state := RESOLVED\<rparr>) = Inr con' \<and> state con' = SERVER_CLOSED \<and>
       syscalls con' = [Sys_accept 5, Sys_socket 6, Sys_connect 6, Sys_close 6]) \<and>
   (\<exists>con'. initiate_server_connect (ex_env (Inr [])) (ex_con\<lparr>state := RESOLVED\<rparr>) = Inr con' \<and>
       state con' = CONNECTED \<and>
       watcher (server con') = \<lparr>active = True, fd = 6, events = EV_WRITE\<rparr>)"
proof -
  have "\<exists>con'. initiate_server_connect ((ex_env (Inr []))\<lparr>connect_result := (- 1, 111)\<rparr>)
       (ex_con\<lparr>state := RESOLVED\<rparr>) = Inr con' \<and> state con' = SERVER_CLOSED \<and>
       syscalls con' = [Sys_accept 5, Sys_socket 6, Sys_connect 6, Sys_close 6]"
    using C5_initiate_server_connect[of "ex_con\<lparr>state := RESOLVED\<rparr>"
        "(ex_env (Inr []))\<lparr>connect_result := (- 1, 111)\<rparr>" "- 1" 111]
    by (auto simp: ex_env_def ex_con_def)
  moreover have "\<exists>con'. initiate_server_connect (ex_env (Inr [])) (ex_con\<lparr>state := RESOLVED\<rparr>) = Inr con' \<and>
       state con' = CONNECTED \<and>
       watcher (server con') = \<lparr>active = True, fd = 6, events = EV_WRITE\<rparr>"
    using C5_initiate_server_connect[of "ex_con\<lparr>state := RESOLVED\<rparr>" "ex_env (Inr [])" "- 1" 115]
    by (auto simp: ex_env_def ex_con_def)
  ultimately show ?thesis by blast
qed

text \<open>
  C10. In a reachable state, let the callback run for an active watcher with EV_READ set
  and room in the input buffer, and let \<^verbatim>\<open>recv\<close> return 0 or fail with an errno that is
  not temporary. Then the callback returns; it has closed the descriptor of that half
  right after the \<^verbatim>\<open>recv\<close>, and none of the system calls it issues afterwards is a
  \<^verbatim>\<open>send\<close>. Moreover no invocation of the callback, whatever it receives, issues a
  \<^verbatim>\<open>send\<close> after a \<^verbatim>\<open>close\<close>.
\<close>

theorem C10_no_send_after_close:
  assumes "reachable w" and "heap w c = Some con"
    and "ev_is_active (watcher (fired is_client con))"
  shows "(revents AND EV_READ \<noteq> 0 \<and> buffer_room (buffer (fired is_client con)) \<noteq> 0 \<and>
          (recv_outcome env = Inr [] \<or>
           (\<exists>e. recv_outcome env = Inl e \<and> \<not> IS_TEMPORARY_SOCKERR e)) \<longrightarrow>
            (\<exists>con3 rest w'. cb_steps env is_client revents con = Inr con3 \<and>
               connection_cb env c is_client revents w = Inr w' \<and>
               \<not> sock_open (fired is_client con3) \<and>
               syscalls con3 = syscalls con @
                 Sys_recv (fd (watcher (fired is_client con))) #
                 Sys_close (fd (watcher (fired is_client con))) # rest \<and>
               (\<forall>x \<in> set rest. \<not> is_send x))) \<and>
         (\<forall>con3. cb_steps env is_client revents con = Inr con3 \<longrightarrow>
            (\<exists>new. syscalls con3 = syscalls con @ new \<and> no_send_after_close new))"
proof -
  from assms(1,2) have inv: "conn_inv con" by (auto dest: reachable_inv simp: world_inv_def)
  with assms(3) have op: "if is_client then client_socket_open con else server_socket_open con"
    by (auto simp: conn_inv_def fired_def)
  have eof: "\<exists>con3 rest w'. cb_steps env is_client revents con = Inr con3 \<and>
               connection_cb env c is_client revents w = Inr w' \<and>
               \<not> sock_open (fired is_client con3) \<and>
               syscalls con3 = syscalls con @
                 Sys_recv (fd (watcher (fired is_client con))) #
                 Sys_close (fd (watcher (fired is_client con))) # rest \<and>
               (\<forall>x \<in> set rest. \<not> is_send x)"
    if h: "revents AND EV_READ \<noteq> 0" "buffer_room (buffer (fired is_client con)) \<noteq> 0"
       "recv_outcome env = Inr [] \<or> (\<exists>e. recv_outcome env = Inl e \<and> \<not> IS_TEMPORARY_SOCKERR e)"
  proof -
    let ?fd = "fd (watcher (fired is_client con))"
    let ?con1 = "con\<lparr>syscalls := syscalls con @ [Sys_recv ?fd]\<rparr>"
    have op1: "if is_client then client_socket_open ?con1 else server_socket_open ?con1"
      using op by (auto simp: client_socket_open_def server_socket_open_def split: if_splits)
    from close_socket_total[OF op1] obtain c1 where
      c1: "close_socket is_client ?con1 = Inr c1" "\<not> sock_open (fired is_client c1)"
          "syscalls c1 = syscalls ?con1 @ [Sys_close (fd (watcher (fired is_client ?con1)))]"
          "if is_client then state c1 = CLOSED \<or> state c1 = CLIENT_CLOSED
           else state c1 = CLOSED \<or> state c1 = SERVER_CLOSED"
      by blast
    have rc: "cb_receive env is_client revents con = Inr (c1, 0)"
      unfolding cb_receive_eof[OF h] using c1(1) by (simp add: bind_err_def)
    from cb_state_after_close[OF c1(4)] obtain c3 where
      c3: "cb_state env is_client c1 = Inr c3"
          "state c3 = CLOSED \<or>
            (state c3 = CLIENT_CLOSED \<and> buffer_len (buffer (client c3)) \<noteq> 0) \<or>
            (state c3 = SERVER_CLOSED \<and> buffer_len (buffer (server c3)) \<noteq> 0)"
          "sock_open (fired is_client c3) = sock_open (fired is_client c1)"
      by blast
    have steps: "cb_steps env is_client revents con = Inr c3"
      using rc c3(1) by (simp add: cb_steps_Inr cb_transmit_zero)
    from cb_state_nosend[OF c3(1)] obtain rest where
      rest: "syscalls c3 = syscalls c1 @ rest" "\<forall>x \<in> set rest. \<not> is_send x"
      unfolding extends_nosend_def by blast
    have sys: "syscalls c3 = syscalls con @ Sys_recv ?fd # Sys_close ?fd # rest"
      using rest(1) c1(3) by (simp add: fired_def)
    have inv3: "conn_inv c3" using steps inv by (rule cb_steps_inv)
    have "\<exists>w'. connection_cb env c is_client revents w = Inr w'"
    proof (cases "state c3 = CLOSED")
      case True
      from connection_cb_closed[OF assms(2) steps True] show ?thesis by blast
    next
      case False
      with c3(2) have "cb_asserts (cb_reactivate c3) = Inr (cb_reactivate c3)"
        by (intro cb_asserts_half_closed[OF inv3]) simp
      then show ?thesis
        unfolding connection_cb_open[OF assms(2) steps False] by (simp add: bind_err_def)
    qed
    with steps c1(2) c3(3) sys rest(2) show ?thesis by auto
  qed
  from eof cb_steps_no_send_after_close show ?thesis by blast
qed


theorem C10_witness:
  "\<exists>con3 w'. cb_steps (ex_env (Inr [])) True EV_READ ex_con = Inr con3 \<and>
     connection_cb (ex_env (Inr [])) 0 True EV_READ ex_accepted = Inr w' \<and>
     \<not> sock_open (client con3) \<and>
     syscalls con3 = [Sys_accept 5, Sys_recv 5, Sys_close 5] \<and>
     no_send_after_close [Sys_recv 5, Sys_close 5]"
proof -
  have a: "ev_is_active (watcher (fired True ex_con))"
    by (simp add: fired_def ex_con_def ev_is_active_def)
  have b: "(1::int) AND EV_READ \<noteq> 0 \<and> buffer_room (buffer (fired True ex_con)) \<noteq> 0 \<and>
          (recv_outcome (ex_env (Inr [])) = Inr [] \<or>
           (\<exists>e. recv_outcome (ex_env (Inr [])) = Inl e \<and> \<not> IS_TEMPORARY_SOCKERR e))"
    by (simp add: fired_def ex_con_def buffer_room_def ex_env_def)
  from C10_no_send_after_close[OF ex_accepted_reachable ex_accepted_heap(1) a,
      of EV_READ "ex_env (Inr [])"] b
  obtain con3 rest w' where
    r: "cb_steps (ex_env (Inr [])) True EV_READ ex_con = Inr con3"
       "connection_cb (ex_env (Inr [])) 0 True EV_READ ex_accepted = Inr w'"
       "\<not> sock_open (fired True con3)"
       "\<exists>new. syscalls con3 = syscalls ex_con @ new \<and> no_send_after_close new"
    by blast
  from r(1) have "syscalls con3 = [Sys_accept 5, Sys_recv 5, Sys_close 5]"
    unfolding ex_steps_eof by auto
  with r(4) have "no_send_after_close [Sys_recv 5, Sys_close 5]" by (simp add: ex_con_def)
  with r(1,2,3) \<open>syscalls con3 = [Sys_accept 5, Sys_recv 5, Sys_close 5]\<close>
  show ?thesis by (auto simp: fired_def)
qed

text \<open>
  C2, as the claim states it, fails: the Connection below is in SERVER_CLOSED with one byte
  pending in the server buffer when the client sends EOF; the callback closes the client
  socket and the Connection is CLOSED and freed with that byte undelivered.
\<close>

theorem C2_counterexample:
  "reachable (ex_world ex_half_closed) \<and> state ex_half_closed = SERVER_CLOSED \<and>
   buffer_len (buffer (server ex_half_closed)) = 1 \<and>
   connection_cb (ex_env (Inr [])) 0 True EV_READ (ex_world ex_half_closed) =
     Inr \<lparr>connections = [], heap = Map.empty, freed = [ex_closed_early]\<rparr> \<and>
   state ex_closed_early = CLOSED \<and> \<not> sock_open (client ex_closed_early) \<and>
   buffer_len (buffer (server ex_closed_early)) = 1"
  using ex_half_closed_reachable ex_run_4
  by (simp add: ex_half_closed_def ex_closed_early_def ex_relaying_def ex_connected_def
      buffer_len_def)


text \<open>
  C2, amended. Take a callback in a reachable state whose receive and transmit steps
  return, and let \<open>c2\<close> be the Connection after them. If \<open>c2\<close> is in SERVER_CLOSED, the
  callback closes the client socket and reaches CLOSED exactly when the server buffer of
  \<open>c2\<close> has zero pending bytes, and otherwise leaves \<open>c2\<close> as it is, client socket open.
  Symmetrically, if \<open>c2\<close> is in CLIENT_CLOSED, it closes the server socket and reaches
  CLOSED exactly when the client buffer of \<open>c2\<close> has zero pending bytes.
\<close>

theorem C2_close_when_drained:
  assumes "reachable w" and "heap w c = Some con"
    and "cb_receive env is_client revents con = Inr (c1, r1)"
    and "cb_transmit env is_client r1 c1 = Inr c2"
  shows "(state c2 = SERVER_CLOSED \<longrightarrow>
            (\<exists>c3. cb_steps env is_client revents con = Inr c3 \<and>
               (state c3 = CLOSED \<longleftrightarrow> buffer_len (buffer (server c2)) = 0) \<and>
               (sock_open (client c3) \<longleftrightarrow> buffer_len (buffer (server c2)) \<noteq> 0) \<and>
               (buffer_len (buffer (server c2)) \<noteq> 0 \<longrightarrow> c3 = c2))) \<and>
         (state c2 = CLIENT_CLOSED \<longrightarrow>
            (\<exists>c3. cb_steps env is_client revents con = Inr c3 \<and>
               (state c3 = CLOSED \<longleftrightarrow> buffer_len (buffer (client c2)) = 0) \<and>
               (sock_open (server c3) \<longleftrightarrow> buffer_len (buffer (client c2)) \<noteq> 0) \<and>
               (buffer_len (buffer (client c2)) \<noteq> 0 \<longrightarrow> c3 = c2)))"
proof -
  from assms(1,2) have "conn_inv con" by (auto dest: reachable_inv simp: world_inv_def)
  with assms(3) have "conn_inv c1" by (rule cb_receive_inv)
  with assms(4) have inv: "conn_inv c2" by (rule cb_transmit_inv)
  have st: "cb_steps env is_client revents con = cb_state env is_client c2"
    using assms(3,4) by (simp add: cb_steps_def bind_err_def)
  have a: "\<exists>c3. cb_state env is_client c2 = Inr c3 \<and>
               (state c3 = CLOSED \<longleftrightarrow> buffer_len (buffer (server c2)) = 0) \<and>
               (sock_open (client c3) \<longleftrightarrow> buffer_len (buffer (server c2)) \<noteq> 0) \<and>
               (buffer_len (buffer (server c2)) \<noteq> 0 \<longrightarrow> c3 = c2)"
    if "state c2 = SERVER_CLOSED"
    using that inv
    by (simp add: cb_state_def bind_err_def close_client_socket_def conn_inv_def
        client_socket_open_def)
  have b: "\<exists>c3. cb_state env is_client c2 = Inr c3 \<and>
               (state c3 = CLOSED \<longleftrightarrow> buffer_len (buffer (client c2)) = 0) \<and>
               (sock_open (server c3) \<longleftrightarrow> buffer_len (buffer (client c2)) \<noteq> 0) \<and>
               (buffer_len (buffer (client c2)) \<noteq> 0 \<longrightarrow> c3 = c2)"
    if "state c2 = CLIENT_CLOSED"
    using that inv
    by (simp add: cb_state_def bind_err_def close_server_socket_def conn_inv_def
        server_socket_open_def)
  from a b st show ?thesis by simp
qed


theorem C2_witness:
  "(\<exists>c3. cb_steps ((ex_env (Inr []))\<lparr>send_outcome := Inr 1\<rparr>) True EV_WRITE ex_half_closed =
        Inr c3 \<and> state c3 = CLOSED \<and> \<not> sock_open (client c3)) \<and>
   (\<exists>c3. cb_steps (ex_env (Inr ''d'')) True EV_READ ex_half_closed = Inr c3 \<and>
        state c3 = SERVER_CLOSED \<and> sock_open (client c3)) \<and>
   (\<exists>c3. cb_steps ((ex_env (Inr []))\<lparr>send_outcome := Inr 3\<rparr>) False EV_WRITE ex_client_closed =
        Inr c3 \<and> state c3 = CLOSED \<and> \<not> sock_open (server c3))"
proof -
  have h: "heap (ex_world con) 0 = Some con" for con by (simp add: ex_world_def)
  let ?ea = "(ex_env (Inr []))\<lparr>send_outcome := Inr 1\<rparr>"
  let ?c2a = "ex_half_closed\<lparr>
      server := (server ex_half_closed)\<lparr>buffer := \<lparr>capacity = 4096, pending = []\<rparr>\<rparr>,
      syscalls := syscalls ex_half_closed @ [Sys_send 5]\<rparr>"
  have ra: "cb_receive ?ea True EV_WRITE ex_half_closed = Inr (ex_half_closed, EV_WRITE)"
    by (simp add: cb_receive_def)
  have ta: "cb_transmit ?ea True EV_WRITE ex_half_closed = Inr ?c2a"
    by (simp add: cb_defs ex_defs)
  have a: "\<exists>c3. cb_steps ?ea True EV_WRITE ex_half_closed = Inr c3 \<and> state c3 = CLOSED \<and>
      \<not> sock_open (client c3)"
    using C2_close_when_drained[OF ex_half_closed_reachable h ra ta]
    by (auto simp: ex_defs buffer_len_def)
  let ?eb = "ex_env (Inr ''d'')"
  let ?c2b = "ex_half_closed\<lparr>
      client := (client ex_half_closed)\<lparr>buffer := \<lparr>capacity = 4096, pending = ''abcd''\<rparr>\<rparr>,
      syscalls := syscalls ex_half_closed @ [Sys_recv 5]\<rparr>"
  have rb: "cb_receive ?eb True EV_READ ex_half_closed = Inr (?c2b, EV_READ)"
    by (simp add: cb_defs ex_defs)
  have tb: "cb_transmit ?eb True EV_READ ?c2b = Inr ?c2b"
    by (simp add: cb_transmit_def)
  have b: "\<exists>c3. cb_steps ?eb True EV_READ ex_half_closed = Inr c3 \<and> state c3 = SERVER_CLOSED \<and>
      sock_open (client c3)"
    using C2_close_when_drained[OF ex_half_closed_reachable h rb tb]
    by (auto simp: ex_defs buffer_len_def)
  let ?ec = "(ex_env (Inr []))\<lparr>send_outcome := Inr 3\<rparr>"
  let ?c2c = "ex_client_closed\<lparr>
      client := (client ex_client_closed)\<lparr>buffer := \<lparr>capacity = 4096, pending = []\<rparr>\<rparr>,
      syscalls := syscalls ex_client_closed @ [Sys_send 6]\<rparr>"
  have rc: "cb_receive ?ec False EV_WRITE ex_client_closed = Inr (ex_client_closed, EV_WRITE)"
    by (simp add: cb_receive_def)
  have tc: "cb_transmit ?ec False EV_WRITE ex_client_closed = Inr ?c2c"
    by (simp add: cb_defs ex_defs)
  have c: "\<exists>c3. cb_steps ?ec False EV_WRITE ex_client_closed = Inr c3 \<and> state c3 = CLOSED \<and>
      \<not> sock_open (server c3)"
    using C2_close_when_drained[OF ex_client_closed_reachable h rc tc]
    by (auto simp: ex_defs buffer_len_def)
  from a b c show ?thesis by blast
qed

text \<open>
  C6. That after every callback on a Connection short of CLOSED the watcher of a closed
  half is inactive and at least one watcher is active with a non-empty event set, in
  every reachable combination of state and buffer occupancy, does not hold of the code.
  The process has just accepted a connection (state
  ACCEPTED, empty client buffer of 4096 bytes, client watcher started for READ). The
  client has sent 4096 bytes which the listener's parser judges incomplete. The callback
  fills the buffer, the parser returns -1, \<^verbatim>\<open>reactivate_watcher\<close> finds neither room to
  read nor bytes to write and stops the client watcher, the only active one, and the
  assertion of line 262 fails.
\<close>

theorem C6_assertion_fails:
  "reachable ex_accepted \<and>
   heap ex_accepted 0 = Some ex_con \<and> state ex_con = ACCEPTED \<and>
   connection_cb (ex_env (Inr (replicate 4096 CHR ''A''))) 0 True EV_READ ex_accepted =
     Inl (AssertFailed 262)"
proof -
  have "connection_cb (ex_env (Inr (replicate 4096 CHR ''A''))) 0 True EV_READ ex_accepted =
     Inl (AssertFailed 262)"
    by (simp add: ex_accepted_simp cb_defs ex_defs ex_listener_def)
  then show ?thesis
    using ex_accepted_reachable by (simp add: ex_accepted_heap) (simp add: ex_con_def)
qed

text \<open>
  C9. \<^verbatim>\<open>end_listener\<close> puts one listener at the head of the Config's list; its protocol
  is HTTP when the stanza's protocol value is set and \<^verbatim>\<open>strcasecmp\<close> finds it equal to
  \<open>http\<close>, and TLS in every other case; for a value as the parser delivers it (no NUL
  inside) that is: when the value lowercased is \<open>http\<close>. A stanza without a protocol
  directive, that is a ListenerConfig from \<^verbatim>\<open>begin_listener\<close> on which
  \<^verbatim>\<open>accept_listener_protocol\<close> has not run, gives TLS; the first protocol directive sets
  the value.
\<close>

theorem C9_default_protocol_tls:
  "(\<exists>l. end_listener atoi parse_address config lc = (1, config\<lparr>listeners := l # listeners config\<rparr>) \<and>
      listener_protocol l =
        (if \<exists>p. protocol lc = Some p \<and> strcasecmp p ''http'' = 0 then HTTP else TLS) \<and>
      (protocol lc = None \<longrightarrow> listener_protocol l = TLS) \<and>
      (\<forall>p. protocol lc = Some p \<and> CHR 0x00 \<notin> set p \<longrightarrow>
         listener_protocol l = (if map tolower p = ''http'' then HTTP else TLS))) \<and>
   (\<forall>lc0. begin_listener True = Some lc0 \<longrightarrow>
      protocol lc0 = None \<and>
      protocol (snd (accept_listener_arg isnumeric lc0 arg)) = None \<and>
      protocol (snd (accept_listener_table_name lc0 tn)) = None \<and>
      protocol (snd (accept_listener_protocol lc0 p0)) = Some p0)"
proof -
  obtain a a_len where pa:
    "parse_address (address lc) (case port lc of Some p \<Rightarrow> atoi p | None \<Rightarrow> 0) = (a, a_len)"
    by (cases "parse_address (address lc) (case port lc of Some p \<Rightarrow> atoi p | None \<Rightarrow> 0)")
  let ?l = "\<lparr>listener_table_name = table_name lc,
      listener_protocol = (if (case protocol lc of None \<Rightarrow> False
                                  | Some p \<Rightarrow> strcasecmp p ''http'' = 0)
                           then HTTP else TLS),
      listener_addr = a, listener_addr_len = a_len\<rparr>"
  have e: "end_listener atoi parse_address config lc = (1, config\<lparr>listeners := ?l # listeners config\<rparr>)"
    using pa by (simp add: end_listener_def Let_def)
  have h: "map tolower ''http'' = ''http''" by code_simp
  have c: "listener_protocol ?l = (if map tolower p = ''http'' then HTTP else TLS)"
    if "protocol lc = Some p" "CHR 0x00 \<notin> set p" for p
  proof -
    have "CHR 0x00 \<notin> set ''http''" by simp
    from strcasecmp_zero[OF that(2) this]
    have "strcasecmp p ''http'' = 0 \<longleftrightarrow> map tolower p = ''http''" unfolding h .
    with that(1) show ?thesis by simp
  qed
  have b: "protocol lc0 = None \<and>
      protocol (snd (accept_listener_arg isnumeric lc0 arg)) = None \<and>
      protocol (snd (accept_listener_table_name lc0 tn)) = None \<and>
      protocol (snd (accept_listener_protocol lc0 p0)) = Some p0"
    if "begin_listener True = Some lc0" for lc0
    using that
    by (auto simp: begin_listener_def accept_listener_arg_def accept_listener_table_name_def
        accept_listener_protocol_def)
  have c': "\<forall>p. protocol lc = Some p \<and> CHR 0x00 \<notin> set p \<longrightarrow>
         listener_protocol ?l = (if map tolower p = ''http'' then HTTP else TLS)"
    using c by blast
  have d: "listener_protocol ?l =
        (if \<exists>p. protocol lc = Some p \<and> strcasecmp p ''http'' = 0 then HTTP else TLS)"
    by (cases "protocol lc") simp_all
  have n: "protocol lc = None \<longrightarrow> listener_protocol ?l = TLS" by simp
  have "\<exists>l. end_listener atoi parse_address config lc = (1, config\<lparr>listeners := l # listeners config\<rparr>) \<and>
      listener_protocol l =
        (if \<exists>p. protocol lc = Some p \<and> strcasecmp p ''http'' = 0 then HTTP else TLS) \<and>
      (protocol lc = None \<longrightarrow> listener_protocol l = TLS) \<and>
      (\<forall>p. protocol lc = Some p \<and> CHR 0x00 \<notin> set p \<longrightarrow>
         listener_protocol l = (if map tolower p = ''http'' then HTTP else TLS))"
    using e d n c' by (intro exI[of _ ?l] conjI)
  with b show ?thesis by blast
qed

theorem C9_witness:
  "(\<exists>l c. end_listener (\<lambda>s. 443) (\<lambda>a p. (ex_sockaddr, 16))
        \<lparr>filename = None, user = None, listeners = []\<rparr>
        \<lparr>address = Some ''0.0.0.0'', port = Some ''443'', table_name = None, protocol = None\<rparr> =
      (1, c) \<and> listeners c = [l] \<and> listener_protocol l = TLS) \<and>
   (\<exists>l c. end_listener (\<lambda>s. 80) (\<lambda>a p. (ex_sockaddr, 16))
        \<lparr>filename = None, user = None, listeners = []\<rparr>
        \<lparr>address = Some ''0.0.0.0'', port = Some ''80'', table_name = None,
          protocol = Some ''HTTP''\<rparr> =
      (1, c) \<and> listeners c = [l] \<and> listener_protocol l = HTTP) \<and>
   (\<exists>l c. end_listener (\<lambda>s. 443) (\<lambda>a p. (ex_sockaddr, 16))
        \<lparr>filename = None, user = None, listeners = []\<rparr>
        \<lparr>address = Some ''0.0.0.0'', port = Some ''443'', table_name = None,
          protocol = Some ''https''\<rparr> =
      (1, c) \<and> listeners c = [l] \<and> listener_protocol l = TLS) \<and>
   protocol (snd (accept_listener_protocol
      \<lparr>address = None, port = None, table_name = None, protocol = None\<rparr> ''http'')) = Some ''http''"
proof -
  let ?cfg = "\<lparr>filename = None, user = None, listeners = []\<rparr>"
  let ?pa = "\<lambda>a p. (ex_sockaddr, 16 :: int)"
  let ?lc = "\<lambda>po pr. \<lparr>address = Some ''0.0.0.0'', port = Some po, table_name = None,
      protocol = pr\<rparr>"
  have u: "strcasecmp ''HTTP'' ''http'' = 0" "strcasecmp ''https'' ''http'' \<noteq> 0" by code_simp+
  have r: "\<exists>l c. end_listener at ?pa ?cfg (?lc po pr) = (1, c) \<and> listeners c = [l] \<and>
      listener_protocol l = (if \<exists>p. pr = Some p \<and> strcasecmp p ''http'' = 0 then HTTP else TLS)"
    for at po pr
  proof -
    from C9_default_protocol_tls[of at ?pa ?cfg "?lc po pr" "\<lambda>s. True" "''a''" "''t''" "''http''"]
    obtain l where
      "end_listener at ?pa ?cfg (?lc po pr) = (1, ?cfg\<lparr>listeners := l # listeners ?cfg\<rparr>)"
      "listener_protocol l =
        (if \<exists>p. protocol (?lc po pr) = Some p \<and> strcasecmp p ''http'' = 0 then HTTP else TLS)"
      by blast
    then show ?thesis by simp
  qed
  have b: "protocol (snd (accept_listener_protocol
      \<lparr>address = None, port = None, table_name = None, protocol = None\<rparr> ''http'')) = Some ''http''"
    using C9_default_protocol_tls[of "\<lambda>s. 0" ?pa ?cfg "?lc ''0'' None" "\<lambda>s. True" "''a''"
        "''t''" "''http''"]
    by (simp add: begin_listener_def)
  from r[of "\<lambda>s. 443" "''443''" None] r[of "\<lambda>s. 80" "''80''" "Some ''HTTP''"]
    r[of "\<lambda>s. 443" "''443''" "Some ''https''"] u b
  show ?thesis by simp
qed

end
